theory Spec2Isabelle
  imports Complex_Main "HOL-Library.Multiset"
begin

section \<open>JavaScript strings\<close>

text \<open>
  A JavaScript string is modelled as the list of its code units, each an Isabelle
  \<^typ>\<open>char\<close>; the model therefore speaks about text whose code units lie below 256.
  The functions below are the parts of \<^verbatim>\<open>String.prototype\<close> that the launcher and the
  renderer call: \<^verbatim>\<open>split\<close> with a one-character separator, \<^verbatim>\<open>trim\<close>, \<^verbatim>\<open>startsWith\<close>,
  \<^verbatim>\<open>includes\<close>, \<^verbatim>\<open>indexOf\<close>, \<^verbatim>\<open>substring\<close>, \<^verbatim>\<open>toUpperCase\<close>.
\<close>

definition newline :: char where
  "newline = CHR 0x0A"

text \<open>\<^verbatim>\<open>s.split(sep)\<close>: the pieces between the separators; never the empty array.\<close>

fun split_on :: "char \<Rightarrow> string \<Rightarrow> string list" where
  "split_on sep [] = [[]]"
| "split_on sep (c # cs) =
     (if c = sep then [] # split_on sep cs
      else (case split_on sep cs of
              [] \<Rightarrow> [[c]]
            | l # ls \<Rightarrow> (c # l) # ls))"

text \<open>
  The white space and line terminator code units below 256 that \<^verbatim>\<open>trim\<close> strips:
  TAB, LF, VT, FF, CR, SP and NBSP.
\<close>

definition is_space :: "char \<Rightarrow> bool" where
  "is_space c \<longleftrightarrow> c \<in> {CHR 0x09, CHR 0x0A, CHR 0x0B, CHR 0x0C, CHR 0x0D, CHR 0x20, CHR 0xA0}"

definition trim :: "string \<Rightarrow> string" where
  "trim s = rev (dropWhile is_space (rev (dropWhile is_space s)))"

text \<open>A string is truthy when it is not empty.\<close>

definition truthy :: "string \<Rightarrow> bool" where
  "truthy s \<longleftrightarrow> s \<noteq> []"

fun startsWith :: "string \<Rightarrow> string \<Rightarrow> bool" where
  "startsWith s [] = True"
| "startsWith [] (c # cs) = False"
| "startsWith (x # xs) (c # cs) = (x = c \<and> startsWith xs cs)"

fun includes_str :: "string \<Rightarrow> string \<Rightarrow> bool" where
  "includes_str [] t = (t = [])"
| "includes_str (x # xs) t = (startsWith (x # xs) t \<or> includes_str xs t)"

text \<open>\<^verbatim>\<open>s.indexOf(c)\<close>; \<open>None\<close> stands for the result \<open>-1\<close>.\<close>

fun indexOf :: "char \<Rightarrow> string \<Rightarrow> nat option" where
  "indexOf c [] = None"
| "indexOf c (x # xs) =
     (if x = c then Some 0 else map_option Suc (indexOf c xs))"

text \<open>
  \<^verbatim>\<open>toUpperCase\<close> on ASCII letters. On text made of ASCII code units this is what the
  host computes; other code units are left as they are here. The general theorems
  below never unfold this definition: they speak about the upper-cased text, whatever
  it is, and only the evaluations at concrete ASCII lines compute it.
\<close>

definition upper_char :: "char \<Rightarrow> char" where
  "upper_char c =
     (case map_of (zip ''abcdefghijklmnopqrstuvwxyz'' ''ABCDEFGHIJKLMNOPQRSTUVWXYZ'') c of
        Some u \<Rightarrow> u
      | None \<Rightarrow> c)"

definition toUpperCase :: "string \<Rightarrow> string" where
  "toUpperCase s = map upper_char s"

section \<open>The launcher: one build child process behind IPC\<close>

text \<open>
  The main process of \<^verbatim>\<open>electron-app\<close> keeps the variable \<^verbatim>\<open>pythonProcess\<close>, spawns the
  build with \<^verbatim>\<open>spawn('python', args, ...)\<close> and answers over IPC with \<^verbatim>\<open>event.reply\<close>.
  Child processes are numbered in the order they are spawned. \<open>running\<close> holds the
  children whose \<^verbatim>\<open>close\<close> event has not been delivered yet, \<open>killed\<close> those on which
  \<^verbatim>\<open>kill()\<close> was called, \<open>outbox\<close> the IPC events replied so far, oldest first.
  The command line and the environment given to \<^verbatim>\<open>spawn\<close> touch neither the handle
  nor the events and are not part of the state.
\<close>

datatype exit_code = Exited int | Signaled

record build_result =
  success :: bool
  code :: "exit_code option"
  aborted :: bool

datatype ipc = LogUpdate string | BuildComplete build_result

record launcher =
  pythonProcess :: "nat option"
  running :: "nat set"
  killed :: "nat set"
  next_pid :: nat
  outbox :: "ipc list"

definition reply :: "ipc list \<Rightarrow> launcher \<Rightarrow> launcher" where
  "reply evs s = s\<lparr>outbox := outbox s @ evs\<rparr>"

definition killPython :: "launcher \<Rightarrow> launcher" where
  "killPython s =
     (case pythonProcess s of
        None \<Rightarrow> s
      | Some p \<Rightarrow> s\<lparr>killed := insert p (killed s), pythonProcess := None\<rparr>)"

definition spawn :: "launcher \<Rightarrow> launcher" where
  "spawn s =
     s\<lparr>pythonProcess := Some (next_pid s),
       running := insert (next_pid s) (running s),
       next_pid := Suc (next_pid s)\<rparr>"

definition start_build :: "launcher \<Rightarrow> launcher" where
  "start_build s = spawn (killPython s)"

text \<open>The \<^verbatim>\<open>data\<close> handlers of the child's stdout and stderr.\<close>

definition log_lines :: "string \<Rightarrow> string list" where
  "log_lines chunk = filter (\<lambda>l. truthy (trim l)) (split_on newline chunk)"

definition on_stdout :: "string \<Rightarrow> launcher \<Rightarrow> launcher" where
  "on_stdout chunk s = reply (map LogUpdate (log_lines chunk)) s"

definition on_stderr :: "string \<Rightarrow> launcher \<Rightarrow> launcher" where
  "on_stderr chunk s =
     reply (map (\<lambda>line. LogUpdate (''[ERROR] '' @ line)) (log_lines chunk)) s"

text \<open>The \<^verbatim>\<open>close\<close> handler: \<^verbatim>\<open>code === 0\<close> decides; the handle is dropped.\<close>

definition close_result :: "exit_code \<Rightarrow> build_result" where
  "close_result c =
     (if c = Exited 0 then \<lparr>success = True, code = None, aborted = False\<rparr>
      else \<lparr>success = False, code = Some c, aborted = False\<rparr>)"

definition on_close :: "nat \<Rightarrow> exit_code \<Rightarrow> launcher \<Rightarrow> launcher" where
  "on_close p c s =
     (reply [BuildComplete (close_result c)] s)
       \<lparr>pythonProcess := None, running := running s - {p}\<rparr>"

definition on_error :: "string \<Rightarrow> launcher \<Rightarrow> launcher" where
  "on_error msg s =
     (reply [LogUpdate (''[ERROR] Failed to start Python: '' @ msg),
             BuildComplete \<lparr>success = False, code = None, aborted = False\<rparr>] s)
       \<lparr>pythonProcess := None\<rparr>"

definition cancel_build :: "launcher \<Rightarrow> launcher" where
  "cancel_build s =
     (case pythonProcess s of
        None \<Rightarrow> s
      | Some p \<Rightarrow>
          reply [LogUpdate ''[ERROR] Build aborted by operator.'',
                 BuildComplete \<lparr>success = False, code = None, aborted = True\<rparr>]
            (killPython s))"

text \<open>
  What can happen to the launcher. Events of a child are delivered only while the
  child is in \<open>running\<close>; after \<^verbatim>\<open>error\<close> a \<^verbatim>\<open>close\<close> may or may not follow, so
  \<open>Error\<close> leaves \<open>running\<close> as it is. \<open>WindowClosed\<close> stands for both
  \<^verbatim>\<open>closed\<close> and \<^verbatim>\<open>window-all-closed\<close>, which call \<^verbatim>\<open>killPython\<close>.
\<close>

datatype event =
    StartBuild
  | CancelBuild
  | Stdout nat string
  | Stderr nat string
  | Close nat exit_code
  | Error nat string
  | WindowClosed

fun enabled :: "event \<Rightarrow> launcher \<Rightarrow> bool" where
  "enabled (Stdout p chunk) s = (p \<in> running s)"
| "enabled (Stderr p chunk) s = (p \<in> running s)"
| "enabled (Close p c) s = (p \<in> running s)"
| "enabled (Error p msg) s = (p \<in> running s)"
| "enabled ev s = True"

fun step :: "event \<Rightarrow> launcher \<Rightarrow> launcher" where
  "step StartBuild s = start_build s"
| "step CancelBuild s = cancel_build s"
| "step (Stdout p chunk) s = on_stdout chunk s"
| "step (Stderr p chunk) s = on_stderr chunk s"
| "step (Close p c) s = on_close p c s"
| "step (Error p msg) s = on_error msg s"
| "step WindowClosed s = killPython s"

definition launcher_init :: launcher where
  "launcher_init =
     \<lparr>pythonProcess = None, running = {}, killed = {}, next_pid = 0, outbox = []\<rparr>"

inductive reachable :: "launcher \<Rightarrow> bool" where
  init: "reachable launcher_init"
| step: "reachable s \<Longrightarrow> enabled ev s \<Longrightarrow> reachable (step ev s)"

text \<open>The events a handler replied: what it added to the outbox.\<close>

definition emitted :: "launcher \<Rightarrow> launcher \<Rightarrow> ipc list" where
  "emitted s s' = drop (length (outbox s)) (outbox s')"

fun is_build_complete :: "ipc \<Rightarrow> bool" where
  "is_build_complete (BuildComplete r) = True"
| "is_build_complete (LogUpdate l) = False"

text \<open>
  A course of events, each delivered only if it can happen in the state it meets;
  \<open>None\<close> when one of them cannot.
\<close>

fun run_events :: "event list \<Rightarrow> launcher \<Rightarrow> launcher option" where
  "run_events [] s = Some s"
| "run_events (ev # evs) s = (if enabled ev s then run_events evs (step ev s) else None)"

text \<open>
  A build is started and cancelled, the next build is started, and only then the
  \<^verbatim>\<open>close\<close> event of the first, killed child arrives (\<^verbatim>\<open>kill()\<close> only sends the
  signal; \<^verbatim>\<open>close\<close> comes when the child is gone and its pipes are closed).
\<close>

definition restart_before_close :: "event list" where
  "restart_before_close = [StartBuild, CancelBuild, StartBuild, Close 0 Signaled]"

definition stale_state :: launcher where
  "stale_state = fold step restart_before_close launcher_init"

subsection \<open>The renderer's answer to \<^verbatim>\<open>build-complete\<close>\<close>

record renderer =
  isBuilding :: bool
  statusText :: string

definition on_build_complete :: "build_result \<Rightarrow> renderer \<Rightarrow> renderer" where
  "on_build_complete r st =
     (let st1 = st\<lparr>isBuilding := False\<rparr> in
      if aborted r then st1\<lparr>statusText := ''ABORTED''\<rparr>
      else if success r then st1\<lparr>statusText := ''COMPLETE''\<rparr>
      else st1\<lparr>statusText := ''FAILED''\<rparr>)"

subsection \<open>The renderer's line classifier\<close>

text \<open>
  \<^verbatim>\<open>AGENT_PERSONAS\<close> in the order of the object literal, which is the order
  \<^verbatim>\<open>Object.entries\<close> walks. An icon is kept as its list of Unicode code points.
\<close>

record persona =
  pclass :: string
  icon :: "nat list"

record classified = persona +
  tag :: string

definition SYSTEM :: persona where
  "SYSTEM = \<lparr>pclass = ''persona-system'', icon = [0x25C8]\<rparr>"

definition AGENT_PERSONAS :: "(string \<times> persona) list" where
  "AGENT_PERSONAS =
     [(''ARCHITECT'', \<lparr>pclass = ''persona-architect'', icon = [0x1F4D0]\<rparr>),
      (''ENGINEER'', \<lparr>pclass = ''persona-engineer'', icon = [0x1F527]\<rparr>),
      (''REVIEWER'', \<lparr>pclass = ''persona-reviewer'', icon = [0x1F441, 0xFE0F]\<rparr>),
      (''DEBUGGER'', \<lparr>pclass = ''persona-reviewer'', icon = [0x1F9EA]\<rparr>),
      (''DOCKER'', \<lparr>pclass = ''persona-system'', icon = [0x1F433]\<rparr>),
      (''SUCCESS'', \<lparr>pclass = ''persona-success'', icon = [0x2705]\<rparr>),
      (''ERROR'', \<lparr>pclass = ''persona-error'', icon = [0x1F6A8]\<rparr>),
      (''SYSTEM'', SYSTEM),
      (''COMPLETE'', \<lparr>pclass = ''persona-success'', icon = [0x1F680]\<rparr>),
      (''WISDOM'', \<lparr>pclass = ''persona-architect'', icon = [0x1F9E0]\<rparr>)]"

definition PHASE_MAP :: "(string \<times> string list) list" where
  "PHASE_MAP =
     [(''briefing'', [''INTERPRETING'', ''BRIEFING'', ''AUTONOMOUS'']),
      (''architect'', [''ARCHITECT'', ''BLUEPRINT'', ''PLANNING'']),
      (''engineer'', [''ENGINEER'', ''CODING'', ''IMPLEMENTING'', ''WRITING'']),
      (''reviewer'', [''REVIEWER'', ''DIAGNOSTICS'', ''WISDOM'', ''QUALITY'', ''AUDIT'']),
      (''complete'', [''COMPLETE'', ''SUCCESS'', ''FINISHED''])]"

text \<open>
  The first loop of \<^verbatim>\<open>classifyLine\<close>: the phase whose stepper is updated, if any. It
  writes to the page only and does not touch the value returned.
\<close>

fun stepper_phase :: "string \<Rightarrow> (string \<times> string list) list \<Rightarrow> string option" where
  "stepper_phase upper [] = None"
| "stepper_phase upper ((phaseKey, keywords) # rest) =
     (if list_ex (\<lambda>kw. includes_str upper kw) keywords then Some phaseKey
      else stepper_phase upper rest)"

definition bracketed :: "string \<Rightarrow> string" where
  "bracketed key = ''['' @ key @ '']''"

definition with_tag :: "persona \<Rightarrow> string \<Rightarrow> classified" where
  "with_tag p key = \<lparr>pclass = pclass p, icon = icon p, tag = key\<rparr>"

text \<open>The second loop: the first persona, in table order, whose tag the text holds.\<close>

fun first_persona :: "string \<Rightarrow> (string \<times> persona) list \<Rightarrow> classified option" where
  "first_persona upper [] = None"
| "first_persona upper ((key, p) # rest) =
     (if includes_str upper (bracketed key) then Some (with_tag p key)
      else first_persona upper rest)"

definition classifyLine :: "string \<Rightarrow> classified" where
  "classifyLine text =
     (let upper = toUpperCase text in
      case first_persona upper AGENT_PERSONAS of
        Some r \<Rightarrow> r
      | None \<Rightarrow> with_tag SYSTEM ''SYSTEM'')"

text \<open>A line holds the tag of a persona when its upper-cased text includes \<open>[KEY]\<close>.\<close>

definition has_tag :: "string \<Rightarrow> string \<Rightarrow> bool" where
  "has_tag text key \<longleftrightarrow> includes_str (toUpperCase text) (bracketed key)"

text \<open>\<^verbatim>\<open>lines.join(sep)\<close>, to say what \<^verbatim>\<open>split\<close> returns.\<close>

fun join_with :: "char \<Rightarrow> string list \<Rightarrow> string" where
  "join_with sep [] = []"
| "join_with sep [l] = l"
| "join_with sep (l # m # ls) = l @ sep # join_with sep (m # ls)"

section \<open>The launcher's .env loader\<close>

text \<open>
  \<^verbatim>\<open>process.env\<close> is a map from names to strings. The file \<^verbatim>\<open>.env\<close> is absent
  (\<^verbatim>\<open>existsSync\<close> is false), unreadable (\<^verbatim>\<open>readFileSync\<close> throws, and the \<^verbatim>\<open>catch\<close>
  swallows it) or has a content.
\<close>

type_synonym env = "string \<Rightarrow> string option"

datatype dotenv_file = Absent | Unreadable | Content string

text \<open>\<^verbatim>\<open>!process.env[key]\<close>: true for a missing name and for the empty string.\<close>

definition unset :: "env \<Rightarrow> string \<Rightarrow> bool" where
  "unset e key \<longleftrightarrow> (case e key of None \<Rightarrow> True | Some v \<Rightarrow> \<not> truthy v)"

definition env_line :: "string \<Rightarrow> env \<Rightarrow> env" where
  "env_line line e =
     (let trimmed = trim line in
      if truthy trimmed \<and> \<not> startsWith trimmed ''#'' then
        (case indexOf CHR ''='' trimmed of
           None \<Rightarrow> e
         | Some eqIdx \<Rightarrow>
             if eqIdx > 0 then
               (let key = trim (take eqIdx trimmed);
                    val = trim (drop (eqIdx + 1) trimmed)
                in if unset e key then e(key \<mapsto> val) else e)
             else e)
      else e)"

definition load_dotenv :: "dotenv_file \<Rightarrow> env \<Rightarrow> env" where
  "load_dotenv f e =
     (case f of
        Absent \<Rightarrow> e
      | Unreadable \<Rightarrow> e
      | Content envContent \<Rightarrow> fold env_line (split_on newline envContent) e)"

section \<open>The inventory dashboard\<close>

subsection \<open>JSON values and answers of \<^verbatim>\<open>fetch\<close>\<close>

text \<open>
  What \<^verbatim>\<open>res.json()\<close> yields. A JSON number is a finite double, hence a rational, and
  comparing two of them is comparing the rationals.
\<close>

datatype json =
    JNull
  | JBool bool
  | JNum rat
  | JStr string
  | JArray "json list"
  | JObject "(string \<times> json) list"

text \<open>
  A call of \<^verbatim>\<open>fetch\<close> rejects (with an error that has a message) or resolves to a
  response; \<^verbatim>\<open>res.json()\<close> in turn rejects (\<open>Inl\<close>, the message) or gives a value.
  \<^verbatim>\<open>res.ok\<close> is true for the statuses 200 to 299. A thrown error is kept as its
  message.
\<close>

record response =
  res_status :: nat
  res_statusText :: string
  res_json :: "string + json"

datatype fetched = Rejected string | Responded response

definition res_ok :: "response \<Rightarrow> bool" where
  "res_ok res \<longleftrightarrow> 200 \<le> res_status res \<and> res_status res \<le> 299"

fun show_nat :: "nat \<Rightarrow> string" where
  "show_nat n =
     (if n < 10 then [''0123456789'' ! n]
      else show_nat (n div 10) @ [''0123456789'' ! (n mod 10)])"

declare show_nat.simps [simp del]

subsection \<open>\<^verbatim>\<open>lib/api.js\<close>\<close>

text \<open>The body of the \<^verbatim>\<open>try\<close> of \<^verbatim>\<open>fetchAPI\<close>, then its \<^verbatim>\<open>catch\<close>, which logs and throws again.\<close>

definition fetchAPI_try :: "fetched \<Rightarrow> string + json" where
  "fetchAPI_try r =
     (case r of
        Rejected msg \<Rightarrow> Inl msg
      | Responded res \<Rightarrow>
          if \<not> res_ok res
          then Inl (''API error: '' @ show_nat (res_status res) @ '' '' @ res_statusText res)
          else res_json res)"

definition fetchAPI :: "fetched \<Rightarrow> string + json" where
  "fetchAPI r =
     (case fetchAPI_try r of
        Inl error \<Rightarrow> Inl error
      | Inr data \<Rightarrow> Inr data)"

definition getLowStock :: "fetched \<Rightarrow> string + json" where
  "getLowStock r = fetchAPI r"

subsection \<open>The stock-alert panel\<close>

record stock_alert =
  alerts :: "json list"
  loading :: bool
  error :: "string option"

text \<open>
  \<^verbatim>\<open>fetchLowStock\<close>: the answer of \<^verbatim>\<open>fetch(baseUrl + '/low-stock')\<close> is the argument.
  \<open>Inl\<close> would be an error leaving the function.
\<close>

definition fetchLowStock_try :: "fetched \<Rightarrow> stock_alert \<Rightarrow> string + stock_alert" where
  "fetchLowStock_try r s =
     (case r of
        Rejected msg \<Rightarrow> Inl msg
      | Responded res \<Rightarrow>
          if \<not> res_ok res then Inl (''API returned '' @ show_nat (res_status res))
          else (case res_json res of
                  Inl msg \<Rightarrow> Inl msg
                | Inr (JArray data) \<Rightarrow> Inr (s\<lparr>alerts := data\<rparr>)
                | Inr data \<Rightarrow> Inr (s\<lparr>alerts := []\<rparr>)))"

definition fetchLowStock :: "fetched \<Rightarrow> stock_alert \<Rightarrow> string + stock_alert" where
  "fetchLowStock r s =
     (let s1 = s\<lparr>loading := True, error := None\<rparr>;
          s2 = (case fetchLowStock_try r s1 of
                  Inl message \<Rightarrow> s1\<lparr>error := Some message, alerts := []\<rparr>
                | Inr s' \<Rightarrow> s')
      in Inr (s2\<lparr>loading := False\<rparr>))"

text \<open>The answers that carry an array: status 200 to 299 and a body that is a JSON array.\<close>

definition array_answer :: "fetched \<Rightarrow> json list option" where
  "array_answer r =
     (case r of
        Rejected msg \<Rightarrow> None
      | Responded res \<Rightarrow>
          if res_ok res then (case res_json res of Inr (JArray data) \<Rightarrow> Some data | _ \<Rightarrow> None)
          else None)"

definition hasAlerts :: "json list \<Rightarrow> bool" where
  "hasAlerts as \<longleftrightarrow> length as > 0"

definition stateClass :: "json list \<Rightarrow> string" where
  "stateClass as = (if hasAlerts as then ''danger'' else ''safe'')"

subsection \<open>The product table\<close>

text \<open>A product is an object: its fields in the order of the JSON text.\<close>

type_synonym product = "(string \<times> json) list"

text \<open>
  The price cell, \<^verbatim>\<open>${product.unit_price?.toFixed(2) ?? '0.00'}\<close> after a dollar sign.
  \<open>toFixed2\<close> is \<^verbatim>\<open>Number.prototype.toFixed\<close> of the host with two digits. A
  \<open>unit_price\<close> that is neither missing, null nor a number has no \<^verbatim>\<open>toFixed\<close>, and
  the call throws.
\<close>

definition price_cell :: "(rat \<Rightarrow> string) \<Rightarrow> product \<Rightarrow> string + string" where
  "price_cell toFixed2 product =
     (case map_of product ''unit_price'' of
        None \<Rightarrow> Inr (''$'' @ ''0.00'')
      | Some JNull \<Rightarrow> Inr (''$'' @ ''0.00'')
      | Some (JNum x) \<Rightarrow> Inr (''$'' @ toFixed2 x)
      | Some v \<Rightarrow> Inl ''product.unit_price?.toFixed is not a function'')"

definition lower_char :: "char \<Rightarrow> char" where
  "lower_char c =
     (case map_of (zip ''ABCDEFGHIJKLMNOPQRSTUVWXYZ'' ''abcdefghijklmnopqrstuvwxyz'') c of
        Some l \<Rightarrow> l
      | None \<Rightarrow> c)"

definition toLowerCase :: "string \<Rightarrow> string" where
  "toLowerCase s = map lower_char s"

text \<open>
  The comparator of the sort. A field that is missing reads as \<open>None\<close>
  (\<^verbatim>\<open>undefined\<close>). \<open>lt\<close> is the \<^verbatim>\<open><\<close> of the host on two such values; \<^verbatim>\<open>a > b\<close> is
  \<open>lt b a\<close>.
\<close>

definition lowered :: "json option \<Rightarrow> json option" where
  "lowered v = (case v of Some (JStr s) \<Rightarrow> Some (JStr (toLowerCase s)) | _ \<Rightarrow> v)"

definition compare_products ::
  "(json option \<Rightarrow> json option \<Rightarrow> bool) \<Rightarrow> string \<Rightarrow> string \<Rightarrow> product \<Rightarrow> product \<Rightarrow> int" where
  "compare_products lt sortField sortDir a b =
     (let aVal = lowered (map_of a sortField);
          bVal = lowered (map_of b sortField)
      in if lt aVal bVal then (if sortDir = ''asc'' then - 1 else 1)
         else if lt bVal aVal then (if sortDir = ''asc'' then 1 else - 1)
         else 0)"

text \<open>The \<^verbatim>\<open><\<close> of the host where both values are numbers; used to run the sort on numbers.\<close>

definition num_lt :: "json option \<Rightarrow> json option \<Rightarrow> bool" where
  "num_lt u v = (case (u, v) of (Some (JNum x), Some (JNum y)) \<Rightarrow> x < y | _ \<Rightarrow> False)"

text \<open>
  \<^verbatim>\<open>Array.prototype.sort\<close> with a comparator, as a stable insertion sort: an element
  goes behind every element that the comparator does not put after it.
\<close>

fun insert_by :: "('a \<Rightarrow> 'a \<Rightarrow> int) \<Rightarrow> 'a \<Rightarrow> 'a list \<Rightarrow> 'a list" where
  "insert_by cmp x [] = [x]"
| "insert_by cmp x (y # ys) =
     (if cmp y x > 0 then x # y # ys else y # insert_by cmp x ys)"

definition array_sort :: "('a \<Rightarrow> 'a \<Rightarrow> int) \<Rightarrow> 'a list \<Rightarrow> 'a list" where
  "array_sort cmp xs = foldl (\<lambda>acc x. insert_by cmp x acc) [] xs"

text \<open>
  Arrays live in a store, addressed by their index in it, so that the array the
  component was given and the array it sorts can be told apart. The \<open>products\<close> prop
  is \<^verbatim>\<open>undefined\<close>, some other value that is no array, or a reference to an array.
  \<^verbatim>\<open>[...products]\<close> allocates a copy; \<^verbatim>\<open>sort\<close> writes to the array it is called on.
\<close>

type_synonym store = "product list list"

datatype products_prop = Undefined | NotArray | ArrayRef nat

definition alloc :: "store \<Rightarrow> product list \<Rightarrow> store \<times> nat" where
  "alloc h xs = (h @ [xs], length h)"

definition spread :: "store \<Rightarrow> nat \<Rightarrow> store \<times> nat" where
  "spread h a = alloc h (h ! a)"

definition sort_in_place :: "(product \<Rightarrow> product \<Rightarrow> int) \<Rightarrow> store \<Rightarrow> nat \<Rightarrow> store" where
  "sort_in_place cmp h r = h[r := array_sort cmp (h ! r)]"

definition sorted_array ::
  "(json option \<Rightarrow> json option \<Rightarrow> bool) \<Rightarrow> store \<Rightarrow> nat \<Rightarrow> string \<Rightarrow> string \<Rightarrow> store \<times> nat" where
  "sorted_array lt h a sortField sortDir =
     (case spread h a of
        (h1, r) \<Rightarrow> (sort_in_place (compare_products lt sortField sortDir) h1 r, r))"

text \<open>
  The memoised \<open>sorted\<close> of \<^verbatim>\<open>ProductTable\<close>: the store after it and the address of
  the array it returns. The default \<^verbatim>\<open>products = []\<close> stands in for \<^verbatim>\<open>undefined\<close>.
\<close>

definition sorted_memo ::
  "(json option \<Rightarrow> json option \<Rightarrow> bool) \<Rightarrow> store \<Rightarrow> products_prop \<Rightarrow> string \<Rightarrow> string
     \<Rightarrow> store \<times> nat" where
  "sorted_memo lt h products sortField sortDir =
     (case products of
        Undefined \<Rightarrow> (case alloc h [] of (h0, d) \<Rightarrow> sorted_array lt h0 d sortField sortDir)
      | NotArray \<Rightarrow> alloc h []
      | ArrayRef a \<Rightarrow> sorted_array lt h a sortField sortDir)"

subsection \<open>The low-stock rule of the backend\<close>

text \<open>
  Modelled from the spec: the backend that stores the products and serves
  \<^verbatim>\<open>/low-stock\<close> is not among the sources; only the client that calls it and its
  documentation are. A product row has a current stock and an initial capacity; it
  is low on stock when its current stock is below 0.1 times its initial capacity
  (taken exactly, over the rationals); the endpoint returns the rows of the
  database that are low on stock, in the order of the database.
\<close>

record product_row =
  row_id :: nat
  current_stock :: int
  initial_capacity :: int

definition is_low_stock :: "product_row \<Rightarrow> bool" where
  "is_low_stock p \<longleftrightarrow>
     (of_int (current_stock p) :: rat) < (1 / 10) * of_int (initial_capacity p)"

definition low_stock_endpoint :: "product_row list \<Rightarrow> product_row list" where
  "low_stock_endpoint db = filter is_low_stock db"

text \<open>Modelled from the spec: the JSON object the endpoint sends for a row.\<close>

definition row_json :: "product_row \<Rightarrow> json" where
  "row_json p =
     JObject [(''id'', JNum (of_nat (row_id p))),
              (''current_stock'', JNum (of_int (current_stock p))),
              (''initial_capacity'', JNum (of_int (initial_capacity p)))]"

definition low_stock_response :: "product_row list \<Rightarrow> fetched" where
  "low_stock_response db =
     Responded \<lparr>res_status = 200, res_statusText = ''OK'',
       res_json = Inr (JArray (map row_json (low_stock_endpoint db)))\<rparr>"

subsection \<open>Polling timers of the page and of the stock-alert panel\<close>

text \<open>
  The two functions that fetch the data: \<^verbatim>\<open>fetchDashboardData\<close> of the page and
  \<^verbatim>\<open>fetchLowStock\<close> of the panel. The timers of the window: the intervals that run
  (id, delay in milliseconds, and the function to call), a log of every
  \<^verbatim>\<open>setInterval\<close> call, a log of every \<^verbatim>\<open>clearInterval\<close> call, the next id, and
  the calls of the fetching functions so far, newest first.
\<close>

datatype refresh = FetchDashboardData | FetchLowStock

record timers =
  active :: "(nat \<times> nat \<times> refresh) list"
  created :: "(nat \<times> nat \<times> refresh) list"
  cleared :: "nat list"
  next_timer :: nat
  fetched :: "refresh list"

definition call :: "refresh \<Rightarrow> timers \<Rightarrow> timers" where
  "call f w = w\<lparr>fetched := f # fetched w\<rparr>"

definition setInterval :: "refresh \<Rightarrow> nat \<Rightarrow> timers \<Rightarrow> nat \<times> timers" where
  "setInterval f delay w =
     (next_timer w,
      w\<lparr>active := (next_timer w, delay, f) # active w,
        created := (next_timer w, delay, f) # created w,
        next_timer := Suc (next_timer w)\<rparr>)"

definition clearInterval :: "nat \<Rightarrow> timers \<Rightarrow> timers" where
  "clearInterval i w =
     w\<lparr>active := filter (\<lambda>t. fst t \<noteq> i) (active w), cleared := i # cleared w\<rparr>"

text \<open>A period passes: every interval that runs calls its function once.\<close>

definition fire :: "timers \<Rightarrow> timers" where
  "fire w = fold (\<lambda>t. call (snd (snd t))) (active w) w"

text \<open>
  The two effects: fetch once, start the interval on the same function, and hand
  back the interval that the cleanup function will clear.
\<close>

definition dashboard_effect :: "timers \<Rightarrow> nat \<times> timers" where
  "dashboard_effect w = setInterval FetchDashboardData 30000 (call FetchDashboardData w)"

definition stock_alert_effect :: "timers \<Rightarrow> nat \<times> timers" where
  "stock_alert_effect w = setInterval FetchLowStock 30000 (call FetchLowStock w)"

definition effect_cleanup :: "nat \<Rightarrow> timers \<Rightarrow> timers" where
  "effect_cleanup interval w = clearInterval interval w"

datatype component = Dashboard | StockAlert

definition run_effect :: "component \<Rightarrow> timers \<Rightarrow> nat \<times> timers" where
  "run_effect c w = (case c of Dashboard \<Rightarrow> dashboard_effect w | StockAlert \<Rightarrow> stock_alert_effect w)"

definition refresh_of :: "component \<Rightarrow> refresh" where
  "refresh_of c = (case c of Dashboard \<Rightarrow> FetchDashboardData | StockAlert \<Rightarrow> FetchLowStock)"

text \<open>
  How React drives an effect: it runs the effect when the component mounts, runs
  the cleanup and then the effect again when the effect is set up anew (a changed
  dependency, a remount), and runs the cleanup when the component unmounts. \<open>cleanup\<close>
  holds the interval of the pending cleanup function while the effect is set up.
  \<open>Tick\<close> is a period of 30 seconds passing. An event that cannot happen in the
  state it meets changes nothing.
\<close>

record mounted =
  window :: timers
  cleanup :: "nat option"

datatype lifecycle = Mount | Rerun | Tick | Unmount

fun react_step :: "component \<Rightarrow> lifecycle \<Rightarrow> mounted \<Rightarrow> mounted" where
  "react_step c Mount m =
     (case cleanup m of
        None \<Rightarrow> (case run_effect c (window m) of (i, w) \<Rightarrow> \<lparr>window = w, cleanup = Some i\<rparr>)
      | Some i \<Rightarrow> m)"
| "react_step c Rerun m =
     (case cleanup m of
        None \<Rightarrow> m
      | Some i \<Rightarrow>
          (case run_effect c (effect_cleanup i (window m)) of
             (j, w) \<Rightarrow> \<lparr>window = w, cleanup = Some j\<rparr>))"
| "react_step c Tick m = m\<lparr>window := fire (window m)\<rparr>"
| "react_step c Unmount m =
     (case cleanup m of
        None \<Rightarrow> m
      | Some i \<Rightarrow> \<lparr>window = effect_cleanup i (window m), cleanup = None\<rparr>)"

definition unmounted :: mounted where
  "unmounted =
     \<lparr>window = \<lparr>active = [], created = [], cleared = [], next_timer = 0, fetched = []\<rparr>,
      cleanup = None\<rparr>"

definition lifecycle_run :: "component \<Rightarrow> lifecycle list \<Rightarrow> mounted" where
  "lifecycle_run c evs = fold (react_step c) evs unmounted"

text \<open>What holds of the timers in every state of a component's life.\<close>

definition timers_ok :: "component \<Rightarrow> timers \<Rightarrow> nat option \<Rightarrow> bool" where
  "timers_ok c w cl \<longleftrightarrow>
     (\<forall>t \<in> set (created w). snd t = (30000, refresh_of c))
     \<and> (\<forall>i \<in> set (cleared w). i < next_timer w)
     \<and> distinct (cleared w)
     \<and> active w = (case cl of None \<Rightarrow> [] | Some i \<Rightarrow> [(i, 30000, refresh_of c)])
     \<and> (\<forall>i. cl = Some i \<longrightarrow> i < next_timer w \<and> i \<notin> set (cleared w))
     \<and> set (map fst (created w)) = set (cleared w) \<union> (case cl of None \<Rightarrow> {} | Some i \<Rightarrow> {i})"

section \<open>The launcher's dashboard tab\<close>

subsection \<open>Double-precision division and multiplication\<close>


function scale_down :: "nat \<Rightarrow> nat \<Rightarrow> nat" where
  "scale_down a b = (if b = 0 \<or> a < 2 ^ 53 * b then b else scale_down a (2 * b))"
  by pat_completeness auto
termination
  by (relation "measure (\<lambda>(a, b). a - b)") auto







subsection \<open>\<^verbatim>\<open>refreshDashboard\<close>: the success rate\<close>

text \<open>
  A project folder counts by its \<^verbatim>\<open>project_manifest.json\<close>: the file is missing,
  or \<^verbatim>\<open>JSON.parse\<close> throws on it, or it parses to a value. A build is successful
  when the manifest has \<^verbatim>\<open>status === 'COMPLETE'\<close> or a truthy \<^verbatim>\<open>success\<close>; reading a
  property of \<^verbatim>\<open>null\<close> throws inside the \<^verbatim>\<open>try\<close> and counts nothing.
\<close>

datatype json_file = NoFile | Unparsable | Parsed json

fun js_truthy :: "json \<Rightarrow> bool" where
  "js_truthy JNull = False"
| "js_truthy (JBool b) = b"
| "js_truthy (JNum x) = (x \<noteq> 0)"
| "js_truthy (JStr s) = (s \<noteq> [])"
| "js_truthy (JArray xs) = True"
| "js_truthy (JObject fs) = True"

definition successful :: "json_file \<Rightarrow> bool" where
  "successful manifest =
     (case manifest of
        Parsed (JObject fs) \<Rightarrow>
          map_of fs ''status'' = Some (JStr ''COMPLETE'')
          \<or> (case map_of fs ''success'' of None \<Rightarrow> False | Some v \<Rightarrow> js_truthy v)
      | _ \<Rightarrow> False)"



text \<open>
  To state what is displayed: the percentage \<open>100 * s / n\<close> as a rational number, and
  whether it lies exactly halfway between two integers (then \<open>100 * s / n + 1 / 2\<close>,
  which is \<open>(200 * s + n) / (2 * n)\<close>, is an integer).
\<close>

definition exact_rate :: "json_file list \<Rightarrow> rat" where
  "exact_rate projects =
     100 * of_nat (length (filter successful projects)) / of_nat (length projects)"

definition halfway :: "json_file list \<Rightarrow> bool" where
  "halfway projects \<longleftrightarrow>
     2 * length projects dvd 200 * length (filter successful projects) + length projects"

section \<open>Exit codes become one build-complete event\<close>

lemma emitted_reply: "emitted s (reply evs s) = evs"
  by (simp add: emitted_def reply_def)

text \<open>
  C2. Whatever the exit code \<open>c\<close> of the build child, the \<^verbatim>\<open>close\<close> handler replies
  exactly one event, a \<^verbatim>\<open>build-complete\<close> whose \<open>success\<close> is true exactly when
  \<open>c\<close> is 0 and which is not an abort; the renderer then shows COMPLETE for 0 and
  FAILED for every other code; nothing is spawned again (no new process number is
  given out, no child is added, the handle is empty).
\<close>

theorem close_reports_exit_code:
  "\<exists>r. emitted s (on_close p c s) = [BuildComplete r]
     \<and> (success r \<longleftrightarrow> c = Exited 0)
     \<and> \<not> aborted r
     \<and> (c \<noteq> Exited 0 \<longrightarrow> statusText (on_build_complete r st) = ''FAILED'')
     \<and> (c = Exited 0 \<longrightarrow> statusText (on_build_complete r st) = ''COMPLETE'')
     \<and> next_pid (on_close p c s) = next_pid s
     \<and> running (on_close p c s) \<subseteq> running s
     \<and> pythonProcess (on_close p c s) = None"
  by (auto simp: on_close_def emitted_def reply_def close_result_def on_build_complete_def)

theorem close_reports_exit_code_witness:
  "\<exists>r. emitted (start_build launcher_init) (on_close 0 (Exited 1) (start_build launcher_init))
         = [BuildComplete r]
     \<and> \<not> success r \<and> \<not> aborted r \<and> Exited 1 \<noteq> Exited 0
     \<and> statusText (on_build_complete r \<lparr>isBuilding = True, statusText = ''RUNNING''\<rparr>) = ''FAILED''"
  using close_reports_exit_code [of "start_build launcher_init" 0 "Exited 1"
      "\<lparr>isBuilding = True, statusText = ''RUNNING''\<rparr>"]
  by auto

section \<open>One handle, killed before a restart\<close>

lemma handle_inv:
  "reachable s \<Longrightarrow>
     (\<forall>p. pythonProcess s = Some p \<longrightarrow> p \<in> running s \<and> p \<notin> killed s)
     \<and> (\<forall>p \<in> running s \<union> killed s. p < next_pid s)"
proof (induction rule: reachable.induct)
  case init
  show ?case by (simp add: launcher_init_def)
next
  case (step s ev)
  then show ?case
    by (cases ev)
       (auto simp: start_build_def spawn_def killPython_def cancel_build_def reply_def
          on_stdout_def on_stderr_def on_close_def on_error_def
          split: option.splits intro: less_SucI)
qed

lemma run_events_reachable:
  "reachable s \<Longrightarrow> run_events evs s = Some s' \<Longrightarrow> reachable s'"
proof (induction evs arbitrary: s)
  case Nil
  then show ?case by simp
next
  case (Cons ev evs)
  from Cons.prems(2) have en: "enabled ev s" and r: "run_events evs (step ev s) = Some s'"
    by (simp_all split: if_splits)
  have "reachable (step ev s)"
    using Cons.prems(1) en by (rule reachable.step)
  then show ?case using r by (rule Cons.IH)
qed

text \<open>What start-build does to the process the handle refers to, and what it adds.\<close>

lemma start_build_kills_held:
  assumes "reachable s"
  shows "(\<forall>p. pythonProcess s = Some p \<longrightarrow> p \<in> running s \<and> p \<notin> killed s)
    \<and> pythonProcess (killPython s) = None
    \<and> (\<forall>p. pythonProcess s = Some p \<longrightarrow> p \<in> killed (start_build s))
    \<and> (\<exists>q. pythonProcess (start_build s) = Some q \<and> q \<notin> running s \<and> q \<notin> killed s
           \<and> running (start_build s) = insert q (running s))"
proof -
  note inv = handle_inv [OF assms]
  have fresh: "next_pid s \<notin> running s \<and> next_pid s \<notin> killed s"
    using inv by auto
  have b: "\<forall>p. pythonProcess s = Some p \<longrightarrow> p \<in> running s \<and> p \<notin> killed s"
    using inv by blast
  have c: "pythonProcess (killPython s) = None"
    by (simp add: killPython_def split: option.splits)
  have d: "\<forall>p. pythonProcess s = Some p \<longrightarrow> p \<in> killed (start_build s)"
    by (simp add: start_build_def spawn_def killPython_def)
  have e: "\<exists>q. pythonProcess (start_build s) = Some q \<and> q \<notin> running s \<and> q \<notin> killed s
           \<and> running (start_build s) = insert q (running s)"
    using fresh by (simp add: start_build_def spawn_def killPython_def split: option.splits)
  from b c d e show ?thesis by blast
qed

text \<open>
  The state after \<open>restart_before_close\<close>: every event of it could happen, so the
  state is reachable; the \<^verbatim>\<open>close\<close> handler of child 0 has emptied the handle that
  referred to child 1, which is running and has not been killed.
\<close>

lemma stale_state_run: "run_events restart_before_close launcher_init = Some stale_state"
  by (simp add: restart_before_close_def stale_state_def launcher_init_def start_build_def
        spawn_def killPython_def cancel_build_def reply_def on_close_def)

lemma stale_state_reachable: "reachable stale_state"
  using reachable.init stale_state_run by (rule run_events_reachable)

lemma stale_state_fields:
  "pythonProcess stale_state = None \<and> running stale_state = {1}
   \<and> killed stale_state = {0} \<and> next_pid stale_state = 2"
  by (auto simp: restart_before_close_def stale_state_def launcher_init_def start_build_def
        spawn_def killPython_def cancel_build_def reply_def on_close_def close_result_def)

text \<open>
  C3. The launcher is to kill any build child that exists before it spawns the next.
  After \<open>restart_before_close\<close> the handle is empty while child 1 runs, so the
  next start-build request kills nothing and spawns child 2: two build children run,
  neither of them killed, and the handle refers to the second only.
\<close>

theorem start_build_leaves_child_running:
  "run_events restart_before_close launcher_init = Some stale_state
   \<and> pythonProcess stale_state = None
   \<and> 1 \<in> running stale_state \<and> 1 \<notin> killed stale_state
   \<and> killed (start_build stale_state) = killed stale_state
   \<and> pythonProcess (start_build stale_state) = Some 2
   \<and> running (start_build stale_state) - killed (start_build stale_state) = {1, 2}"
proof -
  note f = stale_state_fields
  have a: "pythonProcess stale_state = None" using f by simp
  have b: "1 \<in> running stale_state \<and> 1 \<notin> killed stale_state" using f by simp
  have c: "killed (start_build stale_state) = killed stale_state"
    using f by (simp add: start_build_def spawn_def killPython_def)
  have d: "pythonProcess (start_build stale_state) = Some 2"
    using f by (simp add: start_build_def spawn_def killPython_def)
  have e: "running (start_build stale_state) - killed (start_build stale_state) = {1, 2}"
    using f by (auto simp: start_build_def spawn_def killPython_def)
  from stale_state_run a b c d e show ?thesis by simp
qed

section \<open>Cancelling a build\<close>

text \<open>What cancel-build does by the handle it finds.\<close>

lemma cancel_build_by_handle:
  "(pythonProcess s = None \<longrightarrow> cancel_build s = s \<and> emitted s (cancel_build s) = [])
   \<and> (reachable s \<and> running s = {} \<longrightarrow> cancel_build s = s)
   \<and> (\<forall>p. pythonProcess s = Some p \<longrightarrow>
         p \<in> killed (cancel_build s)
         \<and> pythonProcess (cancel_build s) = None
         \<and> emitted s (cancel_build s) =
             [LogUpdate ''[ERROR] Build aborted by operator.'',
              BuildComplete \<lparr>success = False, code = None, aborted = True\<rparr>]
         \<and> (\<exists>r. filter is_build_complete (emitted s (cancel_build s)) = [BuildComplete r]
                \<and> aborted r \<and> \<not> success r))"
proof -
  have a: "pythonProcess s = None \<longrightarrow> cancel_build s = s \<and> emitted s (cancel_build s) = []"
    by (simp add: cancel_build_def emitted_def)
  have b: "reachable s \<and> running s = {} \<longrightarrow> cancel_build s = s"
  proof
    assume h: "reachable s \<and> running s = {}"
    then have "pythonProcess s = None"
      using handle_inv [of s] by (cases "pythonProcess s") auto
    then show "cancel_build s = s" by (simp add: cancel_build_def)
  qed
  have c: "\<forall>p. pythonProcess s = Some p \<longrightarrow>
         p \<in> killed (cancel_build s)
         \<and> pythonProcess (cancel_build s) = None
         \<and> emitted s (cancel_build s) =
             [LogUpdate ''[ERROR] Build aborted by operator.'',
              BuildComplete \<lparr>success = False, code = None, aborted = True\<rparr>]
         \<and> (\<exists>r. filter is_build_complete (emitted s (cancel_build s)) = [BuildComplete r]
                \<and> aborted r \<and> \<not> success r)"
    by (simp add: cancel_build_def killPython_def reply_def emitted_def)
  show ?thesis
    by (intro conjI a b c)
qed

text \<open>
  C8. With a build child running, cancel-build is to kill it and to reply one
  build-complete event with \<open>aborted\<close> set. After \<open>restart_before_close\<close> child 1
  is running and has not been killed, yet the handler finds the handle empty: it
  replies nothing, kills nothing and leaves the state as it is.
\<close>

theorem cancel_build_ignores_running_child:
  "run_events restart_before_close launcher_init = Some stale_state
   \<and> 1 \<in> running stale_state \<and> 1 \<notin> killed stale_state
   \<and> cancel_build stale_state = stale_state
   \<and> emitted stale_state (cancel_build stale_state) = []
   \<and> filter is_build_complete (emitted stale_state (cancel_build stale_state)) = []
   \<and> 1 \<notin> killed (cancel_build stale_state)"
proof -
  note f = stale_state_fields
  have b: "1 \<in> running stale_state \<and> 1 \<notin> killed stale_state" using f by simp
  have c: "cancel_build stale_state = stale_state"
    using f by (simp add: cancel_build_def)
  have d: "emitted stale_state (cancel_build stale_state) = []"
    by (simp add: c emitted_def)
  from stale_state_run b c d show ?thesis by simp
qed

section \<open>Child output becomes log lines, log lines get a persona\<close>

lemma split_on_nonempty: "split_on sep s \<noteq> []"
  by (induction s) (auto split: list.splits)

lemma split_on_no_sep: "l \<in> set (split_on sep s) \<Longrightarrow> sep \<notin> set l"
proof (induction s arbitrary: l)
  case Nil
  then show ?case by simp
next
  case (Cons c cs)
  obtain m ms where e: "split_on sep cs = m # ms"
    using split_on_nonempty [of sep cs] by (cases "split_on sep cs") auto
  have ih: "\<And>x. x \<in> set (m # ms) \<Longrightarrow> sep \<notin> set x"
    using Cons.IH e by simp
  show ?case
  proof (cases "c = sep")
    case True
    with Cons.prems e have "l = [] \<or> l \<in> set (m # ms)" by simp
    then show ?thesis using ih by auto
  next
    case False
    with Cons.prems e have "l = c # m \<or> l \<in> set ms" by simp
    then show ?thesis using ih False by auto
  qed
qed

lemma join_split_on: "join_with sep (split_on sep s) = s"
proof (induction s)
  case Nil
  show ?case by simp
next
  case (Cons c cs)
  obtain l ls where e: "split_on sep cs = l # ls"
    using split_on_nonempty [of sep cs] by (cases "split_on sep cs") auto
  show ?case
  proof (cases "c = sep")
    case True
    with Cons e show ?thesis by simp
  next
    case False
    show ?thesis
    proof (cases ls)
      case Nil
      with Cons e False show ?thesis by simp
    next
      case (Cons m ms)
      with Cons.IH e False show ?thesis by simp
    qed
  qed
qed

lemma trim_empty_iff: "trim l = [] \<longleftrightarrow> (\<forall>c \<in> set l. is_space c)"
proof
  assume "trim l = []"
  then have a: "dropWhile is_space (rev (dropWhile is_space l)) = []"
    by (simp add: trim_def)
  then have "\<forall>c \<in> set (rev (dropWhile is_space l)). is_space c"
    by (simp only: dropWhile_eq_Nil_conv)
  then have "\<forall>c \<in> set (dropWhile is_space l). is_space c" by simp
  then have "dropWhile is_space l = []"
    by (metis hd_dropWhile list.set_sel(1))
  then show "\<forall>c \<in> set l. is_space c"
    by (simp only: dropWhile_eq_Nil_conv)
next
  assume "\<forall>c \<in> set l. is_space c"
  then have "dropWhile is_space l = []"
    by (simp only: dropWhile_eq_Nil_conv)
  then show "trim l = []" unfolding trim_def by (simp only: rev.simps dropWhile.simps)
qed

lemma first_persona_None:
  "first_persona u tbl = None \<longleftrightarrow> (\<forall>k \<in> fst ` set tbl. \<not> includes_str u (bracketed k))"
  by (induction tbl) (auto split: if_splits)

lemma first_persona_Some:
  "first_persona u tbl = Some r \<Longrightarrow>
     \<exists>pre k p post. tbl = pre @ (k, p) # post \<and> r = with_tag p k
        \<and> includes_str u (bracketed k)
        \<and> (\<forall>k' \<in> fst ` set pre. \<not> includes_str u (bracketed k'))"
proof (induction tbl)
  case Nil
  then show ?case by simp
next
  case (Cons a tbl)
  obtain k p where a: "a = (k, p)" by (cases a)
  show ?case
  proof (cases "includes_str u (bracketed k)")
    case True
    with Cons.prems a have "r = with_tag p k" by simp
    with True a have "a # tbl = [] @ (k, p) # tbl \<and> r = with_tag p k
        \<and> includes_str u (bracketed k)
        \<and> (\<forall>k' \<in> fst ` set []. \<not> includes_str u (bracketed k'))" by simp
    then show ?thesis by blast
  next
    case False
    with Cons.prems a have "first_persona u tbl = Some r" by simp
    from Cons.IH [OF this] obtain pre k2 p2 post where
      h: "tbl = pre @ (k2, p2) # post" "r = with_tag p2 k2" "includes_str u (bracketed k2)"
         "\<forall>k' \<in> fst ` set pre. \<not> includes_str u (bracketed k')" by blast
    from h False a have "a # tbl = (a # pre) @ (k2, p2) # post \<and> r = with_tag p2 k2
        \<and> includes_str u (bracketed k2)
        \<and> (\<forall>k' \<in> fst ` set (a # pre). \<not> includes_str u (bracketed k'))" by simp
    then show ?thesis by blast
  qed
qed

lemma emitted_stdout: "emitted s (on_stdout chunk s) = map LogUpdate (log_lines chunk)"
  by (simp add: on_stdout_def emitted_reply)

lemma emitted_stderr:
  "emitted s (on_stderr chunk s) = map (\<lambda>line. LogUpdate (''[ERROR] '' @ line)) (log_lines chunk)"
  by (simp add: on_stderr_def emitted_reply)

lemma log_lines_not_blank: "l \<in> set (log_lines chunk) \<Longrightarrow> \<exists>c \<in> set l. \<not> is_space c"
proof -
  assume "l \<in> set (log_lines chunk)"
  then have "trim l \<noteq> []" by (simp add: log_lines_def truthy_def)
  then show ?thesis using trim_empty_iff [of l] by blast
qed

lemma log_lines_no_newline: "l \<in> set (log_lines chunk) \<Longrightarrow> newline \<notin> set l"
  using split_on_no_sep [of l newline chunk] by (simp add: log_lines_def)

lemma log_lines_filter:
  "log_lines chunk = filter (\<lambda>l. \<exists>c \<in> set l. \<not> is_space c) (split_on newline chunk)"
proof -
  have "(\<lambda>l. truthy (trim l)) = (\<lambda>l. \<exists>c \<in> set l. \<not> is_space c)"
    using trim_empty_iff by (auto simp: truthy_def fun_eq_iff)
  then show ?thesis by (simp add: log_lines_def)
qed


lemma classify_no_tag:
  "(\<forall>k \<in> fst ` set AGENT_PERSONAS. \<not> has_tag text k) \<Longrightarrow>
     classifyLine text = with_tag SYSTEM ''SYSTEM''"
proof -
  assume "\<forall>k \<in> fst ` set AGENT_PERSONAS. \<not> has_tag text k"
  then have "first_persona (toUpperCase text) AGENT_PERSONAS = None"
    unfolding has_tag_def by (simp only: first_persona_None)
  then show ?thesis by (simp add: classifyLine_def)
qed

lemma classify_first_tag:
  assumes "\<exists>k \<in> fst ` set AGENT_PERSONAS. has_tag text k"
  shows "\<exists>pre k p post. AGENT_PERSONAS = pre @ (k, p) # post
           \<and> classifyLine text = with_tag p k \<and> has_tag text k
           \<and> (\<forall>k' \<in> fst ` set pre. \<not> has_tag text k')"
proof -
  from assms have "first_persona (toUpperCase text) AGENT_PERSONAS \<noteq> None"
    unfolding has_tag_def by (simp only: first_persona_None) blast
  then obtain r where r: "first_persona (toUpperCase text) AGENT_PERSONAS = Some r"
    by blast
  then have c: "classifyLine text = r" by (simp add: classifyLine_def)
  from first_persona_Some [OF r] c show ?thesis
    unfolding has_tag_def by blast
qed

lemma classify_known_class:
  "pclass (classifyLine text) \<in> (pclass \<circ> snd) ` set AGENT_PERSONAS"
proof (cases "\<exists>k \<in> fst ` set AGENT_PERSONAS. has_tag text k")
  case True
  from classify_first_tag [OF True] obtain pre k p post where
    h: "AGENT_PERSONAS = pre @ (k, p) # post" "classifyLine text = with_tag p k" by blast
  have "(k, p) \<in> set AGENT_PERSONAS" by (subst h(1)) simp
  then have "(pclass \<circ> snd) (k, p) \<in> (pclass \<circ> snd) ` set AGENT_PERSONAS"
    by (rule imageI)
  then show ?thesis using h(2) by (simp add: with_tag_def)
next
  case False
  then have "classifyLine text = with_tag SYSTEM ''SYSTEM''"
    using classify_no_tag by blast
  moreover have "(''SYSTEM'', SYSTEM) \<in> set AGENT_PERSONAS"
    by (simp add: AGENT_PERSONAS_def)
  then have "(pclass \<circ> snd) (''SYSTEM'', SYSTEM) \<in> (pclass \<circ> snd) ` set AGENT_PERSONAS"
    by (rule imageI)
  ultimately show ?thesis by (simp add: with_tag_def)
qed

text \<open>
  C4, as the code has it. A chunk is cut at its newlines (joining the pieces with
  newlines gives the chunk back, and no piece holds a newline); the pieces that are
  empty or all white space are dropped; each remaining piece is replied as one
  log-update event, from stderr with \<open>[ERROR] \<close> in front. The classifier is total:
  a line that holds no known tag gets the SYSTEM persona, and a line that holds one
  or more gets the persona of the first key of the table whose tag it holds, so its
  class is always a class of the table.
\<close>

theorem lines_forwarded_and_classified:
  "join_with newline (split_on newline chunk) = chunk
   \<and> (\<forall>l \<in> set (split_on newline chunk). newline \<notin> set l)
   \<and> log_lines chunk = filter (\<lambda>l. \<exists>c \<in> set l. \<not> is_space c) (split_on newline chunk)
   \<and> emitted s (on_stdout chunk s) = map LogUpdate (log_lines chunk)
   \<and> emitted s (on_stderr chunk s)
       = map (\<lambda>line. LogUpdate (''[ERROR] '' @ line)) (log_lines chunk)
   \<and> ((\<forall>k \<in> fst ` set AGENT_PERSONAS. \<not> has_tag text k) \<longrightarrow>
         classifyLine text = with_tag SYSTEM ''SYSTEM'')
   \<and> ((\<exists>k \<in> fst ` set AGENT_PERSONAS. has_tag text k) \<longrightarrow>
         (\<exists>pre k p post. AGENT_PERSONAS = pre @ (k, p) # post
            \<and> classifyLine text = with_tag p k \<and> has_tag text k
            \<and> (\<forall>k' \<in> fst ` set pre. \<not> has_tag text k')))
   \<and> pclass (classifyLine text) \<in> (pclass \<circ> snd) ` set AGENT_PERSONAS"
proof -
  have f1: "join_with newline (split_on newline chunk) = chunk"
    by (rule join_split_on)
  have f2: "\<forall>l \<in> set (split_on newline chunk). newline \<notin> set l"
    using split_on_no_sep by blast
  have f3: "log_lines chunk
      = filter (\<lambda>l. \<exists>c \<in> set l. \<not> is_space c) (split_on newline chunk)"
    by (rule log_lines_filter)
  have f4: "emitted s (on_stdout chunk s) = map LogUpdate (log_lines chunk)"
    by (rule emitted_stdout)
  have f5: "emitted s (on_stderr chunk s)
       = map (\<lambda>line. LogUpdate (''[ERROR] '' @ line)) (log_lines chunk)"
    by (rule emitted_stderr)
  have f6: "(\<forall>k \<in> fst ` set AGENT_PERSONAS. \<not> has_tag text k) \<longrightarrow>
         classifyLine text = with_tag SYSTEM ''SYSTEM''"
    using classify_no_tag by blast
  have f7: "(\<exists>k \<in> fst ` set AGENT_PERSONAS. has_tag text k) \<longrightarrow>
         (\<exists>pre k p post. AGENT_PERSONAS = pre @ (k, p) # post
            \<and> classifyLine text = with_tag p k \<and> has_tag text k
            \<and> (\<forall>k' \<in> fst ` set pre. \<not> has_tag text k'))"
    using classify_first_tag by blast
  have f8: "pclass (classifyLine text) \<in> (pclass \<circ> snd) ` set AGENT_PERSONAS"
    by (rule classify_known_class)
  show ?thesis
    by (intro conjI f1 f2 f3 f4 f5 f6 f7 f8)
qed

theorem lines_forwarded_and_classified_witness:
  "log_lines (''[debugger] b'' @ [newline] @ ''  '' @ [newline] @ ''hello'')
     = [''[debugger] b'', ''hello'']
   \<and> emitted launcher_init (on_stderr ''[debugger] b'' launcher_init)
       = [LogUpdate ''[ERROR] [debugger] b'']
   \<and> classifyLine ''hello'' = with_tag SYSTEM ''SYSTEM''
   \<and> (\<exists>pre k p post. AGENT_PERSONAS = pre @ (k, p) # post
         \<and> classifyLine ''[debugger] b'' = with_tag p k \<and> has_tag ''[debugger] b'' k
         \<and> (\<forall>k' \<in> fst ` set pre. \<not> has_tag ''[debugger] b'' k'))"
proof -
  have l: "log_lines (''[debugger] b'' @ [newline] @ ''  '' @ [newline] @ ''hello'')
     = [''[debugger] b'', ''hello'']"
    by (simp add: log_lines_def newline_def trim_def is_space_def truthy_def)
  have l2: "log_lines ''[debugger] b'' = [''[debugger] b'']"
    by (simp add: log_lines_def newline_def trim_def is_space_def truthy_def)
  have n: "\<forall>k \<in> fst ` set AGENT_PERSONAS. \<not> has_tag ''hello'' k"
    by (simp add: AGENT_PERSONAS_def has_tag_def toUpperCase_def upper_char_def bracketed_def)
  have t: "\<exists>k \<in> fst ` set AGENT_PERSONAS. has_tag ''[debugger] b'' k"
    by (simp add: AGENT_PERSONAS_def has_tag_def toUpperCase_def upper_char_def bracketed_def)
  note w1 = lines_forwarded_and_classified [of "''[debugger] b''" launcher_init "''hello''"]
  note w2 = lines_forwarded_and_classified [of "''[debugger] b''" launcher_init "''[debugger] b''"]
  note c5 = w1 [THEN conjunct2, THEN conjunct2, THEN conjunct2, THEN conjunct2, THEN conjunct1]
  note c6 = w1 [THEN conjunct2, THEN conjunct2, THEN conjunct2, THEN conjunct2, THEN conjunct2,
      THEN conjunct1]
  note c7 = w2 [THEN conjunct2, THEN conjunct2, THEN conjunct2, THEN conjunct2, THEN conjunct2,
      THEN conjunct2, THEN conjunct1]
  have x: "classifyLine ''hello'' = with_tag SYSTEM ''SYSTEM''"
    by (rule mp [OF c6 n])
  have y: "emitted launcher_init (on_stderr ''[debugger] b'' launcher_init)
       = [LogUpdate ''[ERROR] [debugger] b'']"
    using c5 by (simp only: l2 list.map append.simps)
  have z: "\<exists>pre k p post. AGENT_PERSONAS = pre @ (k, p) # post
         \<and> classifyLine ''[debugger] b'' = with_tag p k \<and> has_tag ''[debugger] b'' k
         \<and> (\<forall>k' \<in> fst ` set pre. \<not> has_tag ''[debugger] b'' k')"
    by (rule mp [OF c7 t])
  show ?thesis
    by (intro conjI l y x z)
qed

text \<open>
  The line that the stderr handler makes of \<open>[ARCHITECT] plan\<close> holds the tag of the
  ERROR persona and is given the class of ARCHITECT, the earlier key of the table.
\<close>

theorem tagged_line_other_class:
  "has_tag ''[ERROR] [ARCHITECT] plan'' ''ERROR''
   \<and> map_of AGENT_PERSONAS ''ERROR'' = Some \<lparr>pclass = ''persona-error'', icon = [0x1F6A8]\<rparr>
   \<and> pclass (classifyLine ''[ERROR] [ARCHITECT] plan'') = ''persona-architect''
   \<and> pclass (classifyLine ''[ERROR] [ARCHITECT] plan'') \<noteq> ''persona-error''"
  by (simp add: classifyLine_def AGENT_PERSONAS_def has_tag_def toUpperCase_def upper_char_def
        bracketed_def with_tag_def SYSTEM_def)


section \<open>Loading .env\<close>

lemma env_line_keeps_truthy:
  "e k = Some v \<Longrightarrow> truthy v \<Longrightarrow> env_line line e k = Some v"
  by (auto simp: env_line_def unset_def Let_def split: option.splits)

lemma fold_env_line_keeps_truthy:
  "e k = Some v \<Longrightarrow> truthy v \<Longrightarrow> fold env_line ls e k = Some v"
proof (induction ls arbitrary: e)
  case Nil
  then show ?case by simp
next
  case (Cons l ls)
  have "env_line l e k = Some v"
    using Cons.prems by (rule env_line_keeps_truthy)
  then have "fold env_line ls (env_line l e) k = Some v"
    using Cons.prems(2) by (rule Cons.IH [of "env_line l e"])
  then show ?case by simp
qed

lemma dotenv_keeps_nonempty_variables:
  "e k = Some v \<Longrightarrow> v \<noteq> [] \<Longrightarrow> load_dotenv f e k = Some v"
  by (cases f) (simp_all add: load_dotenv_def truthy_def fold_env_line_keeps_truthy)

lemma dotenv_unreadable_unchanged:
  "load_dotenv Absent e = e \<and> load_dotenv Unreadable e = e"
  by (simp add: load_dotenv_def)

lemma env_line_defines_only_assignments:
  "env_line line e \<noteq> e \<Longrightarrow>
     trim line \<noteq> [] \<and> \<not> startsWith (trim line) ''#''
     \<and> (\<exists>i > 0. indexOf CHR ''='' (trim line) = Some i)"
  by (auto simp: env_line_def Let_def truthy_def split: option.splits if_splits)

text \<open>
  C9. The loader is meant not to overwrite a variable that exists (the comment at the
  guard says so). The guard \<^verbatim>\<open>!process.env[key]\<close> also holds for a variable that
  exists with the empty string as its value: with \<open>FOO\<close> set to the empty string, the
  file \<open>FOO=bar\<close> changes \<open>FOO\<close> to \<open>bar\<close>. The lemmas above give what does
  hold: a variable with a non-empty value is kept, an absent or unreadable file
  leaves the environment as it is, and only a line that is no comment and has \<open>=\<close>
  past its first character changes anything.
\<close>

theorem dotenv_overwrites_empty_variable:
  "(Map.empty(''FOO'' \<mapsto> '''')) ''FOO'' = Some ''''
   \<and> load_dotenv (Content ''FOO=bar'') (Map.empty(''FOO'' \<mapsto> '''')) ''FOO'' = Some ''bar''"
  by (simp add: load_dotenv_def env_line_def newline_def trim_def is_space_def truthy_def
        unset_def)

section \<open>Errors in the dashboard\<close>

lemma fetchLowStock_total:
  "\<exists>s'. fetchLowStock r s = Inr s' \<and> \<not> loading s'
     \<and> (case array_answer r of Some data \<Rightarrow> alerts s' = data \<and> error s' = None
         | None \<Rightarrow> alerts s' = [])"
  by (auto simp: fetchLowStock_def fetchLowStock_try_def array_answer_def Let_def
      split: fetched.splits sum.splits json.splits option.splits)

lemma fetchAPI_rethrows: "fetchAPI r = fetchAPI_try r"
  by (simp add: fetchAPI_def split: sum.splits)

lemma price_cell_missing:
  "map_of product ''unit_price'' = None \<or> map_of product ''unit_price'' = Some JNull
    \<Longrightarrow> price_cell toFixed2 product = Inr ''$0.00''"
  by (auto simp: price_cell_def)

text \<open>
  C5, as the code has it. In the stock-alert panel no error leaves \<open>fetchLowStock\<close>:
  whatever the answer of the request, it ends with \<open>loading\<close> off, and unless the
  answer is a 2xx response whose body is a JSON array the alert list is empty
  afterwards. A product whose \<open>unit_price\<close> is missing or null is rendered as
  \<open>$0.00\<close>. The API client \<open>fetchAPI\<close> does not replace an error by a default: its
  \<^verbatim>\<open>catch\<close> throws the error again, so its caller gets what the \<^verbatim>\<open>try\<close> block threw.
\<close>

theorem stock_alert_falls_back:
  "(\<exists>s'. fetchLowStock r s = Inr s' \<and> \<not> loading s'
      \<and> (case array_answer r of
            Some data \<Rightarrow> alerts s' = data \<and> error s' = None
          | None \<Rightarrow> alerts s' = []))
   \<and> (map_of product ''unit_price'' = None \<or> map_of product ''unit_price'' = Some JNull
        \<longrightarrow> price_cell toFixed2 product = Inr ''$0.00'')
   \<and> getLowStock r = fetchAPI_try r"
proof -
  have f1: "\<exists>s'. fetchLowStock r s = Inr s' \<and> \<not> loading s'
      \<and> (case array_answer r of
            Some data \<Rightarrow> alerts s' = data \<and> error s' = None
          | None \<Rightarrow> alerts s' = [])"
    by (rule fetchLowStock_total)
  have f2: "map_of product ''unit_price'' = None \<or> map_of product ''unit_price'' = Some JNull
        \<longrightarrow> price_cell toFixed2 product = Inr ''$0.00''"
    using price_cell_missing by (rule impI)
  have f3: "getLowStock r = fetchAPI_try r"
    by (simp add: getLowStock_def fetchAPI_rethrows)
  show ?thesis
    by (intro conjI f1 f2 f3)
qed

theorem stock_alert_falls_back_witness:
  "(\<exists>s'. fetchLowStock (Rejected ''Failed to fetch'')
            \<lparr>alerts = [JNull], loading = False, error = None\<rparr> = Inr s'
        \<and> \<not> loading s' \<and> alerts s' = [])
   \<and> price_cell (\<lambda>x. ''?'') [(''name'', JStr ''Bolt'')] = Inr ''$0.00''"
proof -
  note w = stock_alert_falls_back [of "Rejected ''Failed to fetch''"
      "\<lparr>alerts = [JNull], loading = False, error = None\<rparr>"
      "[(''name'', JStr ''Bolt'')]" "\<lambda>x. ''?''"]
  have n: "array_answer (Rejected ''Failed to fetch'') = None"
    by (simp add: array_answer_def)
  have m: "map_of [(''name'', JStr ''Bolt'')] ''unit_price'' = None
      \<or> map_of [(''name'', JStr ''Bolt'')] ''unit_price'' = Some JNull"
    by simp
  have a: "\<exists>s'. fetchLowStock (Rejected ''Failed to fetch'')
            \<lparr>alerts = [JNull], loading = False, error = None\<rparr> = Inr s'
        \<and> \<not> loading s' \<and> alerts s' = []"
    using w [THEN conjunct1] by (simp add: n)
  have b: "price_cell (\<lambda>x. ''?'') [(''name'', JStr ''Bolt'')] = Inr ''$0.00''"
    by (rule mp [OF w [THEN conjunct2, THEN conjunct1] m])
  show ?thesis
    by (intro conjI a b)
qed

text \<open>
  An error of the request reaches the caller of the API client: a rejected \<^verbatim>\<open>fetch\<close>
  and a 500 answer both make \<open>getLowStock\<close> throw.
\<close>

theorem api_client_propagates:
  "getLowStock (Rejected ''Failed to fetch'') = Inl ''Failed to fetch''
   \<and> getLowStock (Responded \<lparr>res_status = 500, res_statusText = ''Internal Server Error'',
         res_json = Inr JNull\<rparr>) = Inl ''API error: 500 Internal Server Error''"
  by (simp add: getLowStock_def fetchAPI_def fetchAPI_try_def res_ok_def show_nat.simps)

section \<open>Sorting the product table\<close>

lemma mset_insert_by: "mset (insert_by cmp x ys) = add_mset x (mset ys)"
  by (induction ys) auto

lemma mset_foldl_insert_by:
  "mset (foldl (\<lambda>acc x. insert_by cmp x acc) acc xs) = mset acc + mset xs"
  by (induction xs arbitrary: acc) (auto simp: mset_insert_by)

lemma mset_array_sort: "mset (array_sort cmp xs) = mset xs"
  by (simp add: array_sort_def mset_foldl_insert_by)

lemma array_sort_Nil: "array_sort cmp [] = []"
  by (simp add: array_sort_def)

lemma sorted_array_copy:
  assumes "a < length h"
  shows "case sorted_array lt h a f d of
           (h', r) \<Rightarrow> r \<noteq> a \<and> r < length h' \<and> mset (h' ! r) = mset (h ! a)
              \<and> (\<forall>b < length h. h' ! b = h ! b)"
  using assms
  by (simp add: sorted_array_def spread_def alloc_def sort_in_place_def nth_append
        mset_array_sort)

lemma sorted_memo_array:
  "a < length h \<Longrightarrow>
     (case sorted_memo lt h (ArrayRef a) f d of
        (h', r) \<Rightarrow> r \<noteq> a \<and> r < length h' \<and> mset (h' ! r) = mset (h ! a)
           \<and> (\<forall>b < length h. h' ! b = h ! b))"
  using sorted_array_copy [of a h lt f d] by (simp add: sorted_memo_def)

lemma sorted_memo_not_array:
  "case sorted_memo lt h NotArray f d of
     (h', r) \<Rightarrow> h' ! r = [] \<and> (\<forall>b < length h. h' ! b = h ! b)"
  by (simp add: sorted_memo_def alloc_def nth_append)

lemma sorted_memo_undefined:
  "case sorted_memo lt h Undefined f d of
     (h', r) \<Rightarrow> h' ! r = [] \<and> (\<forall>b < length h. h' ! b = h ! b)"
  by (simp add: sorted_memo_def sorted_array_def spread_def alloc_def sort_in_place_def
        nth_append array_sort_Nil)

text \<open>
  C7. Whatever the comparison of the host, the sort field and the direction: for a
  \<open>products\<close> prop that refers to an array, \<open>sorted\<close> is a new array (another
  address) whose elements are those of the input array, each as often as there, and
  every array of the store before the call, the input among them, is as it was. For
  a prop that is no array, and for \<^verbatim>\<open>undefined\<close>, \<open>sorted\<close> is the empty array.
\<close>

theorem sorted_is_permutation_of_copy:
  "(a < length h \<longrightarrow>
      (case sorted_memo lt h (ArrayRef a) sortField sortDir of
         (h', r) \<Rightarrow> r \<noteq> a \<and> r < length h' \<and> mset (h' ! r) = mset (h ! a)
            \<and> (\<forall>b < length h. h' ! b = h ! b)))
   \<and> (case sorted_memo lt h NotArray sortField sortDir of
         (h', r) \<Rightarrow> h' ! r = [] \<and> (\<forall>b < length h. h' ! b = h ! b))
   \<and> (case sorted_memo lt h Undefined sortField sortDir of
         (h', r) \<Rightarrow> h' ! r = [] \<and> (\<forall>b < length h. h' ! b = h ! b))"
proof -
  have f1: "a < length h \<longrightarrow>
      (case sorted_memo lt h (ArrayRef a) sortField sortDir of
         (h', r) \<Rightarrow> r \<noteq> a \<and> r < length h' \<and> mset (h' ! r) = mset (h ! a)
            \<and> (\<forall>b < length h. h' ! b = h ! b))"
    using sorted_memo_array by (rule impI)
  show ?thesis
    by (intro conjI f1 sorted_memo_not_array sorted_memo_undefined)
qed

theorem sorted_is_permutation_of_copy_witness:
  "sorted_memo num_lt
      [[[(''name'', JStr ''Nut''), (''unit_price'', JNum 5)],
        [(''name'', JStr ''Bolt''), (''unit_price'', JNum 2)]]]
      (ArrayRef 0) ''unit_price'' ''asc''
    = ([[[(''name'', JStr ''Nut''), (''unit_price'', JNum 5)],
         [(''name'', JStr ''Bolt''), (''unit_price'', JNum 2)]],
        [[(''name'', JStr ''Bolt''), (''unit_price'', JNum 2)],
         [(''name'', JStr ''Nut''), (''unit_price'', JNum 5)]]], 1)
   \<and> (case sorted_memo num_lt
      [[[(''name'', JStr ''Nut''), (''unit_price'', JNum 5)],
        [(''name'', JStr ''Bolt''), (''unit_price'', JNum 2)]]]
      (ArrayRef 0) ''unit_price'' ''asc'' of
        (h', r) \<Rightarrow> r \<noteq> 0
          \<and> mset (h' ! r) = mset [[(''name'', JStr ''Nut''), (''unit_price'', JNum 5)],
                                  [(''name'', JStr ''Bolt''), (''unit_price'', JNum 2)]]
          \<and> h' ! 0 = [[(''name'', JStr ''Nut''), (''unit_price'', JNum 5)],
                       [(''name'', JStr ''Bolt''), (''unit_price'', JNum 2)]])"
proof -
  let ?h = "[[[(''name'', JStr ''Nut''), (''unit_price'', JNum 5)],
        [(''name'', JStr ''Bolt''), (''unit_price'', JNum 2)]]]"
  have e: "sorted_memo num_lt ?h (ArrayRef 0) ''unit_price'' ''asc''
    = ([[[(''name'', JStr ''Nut''), (''unit_price'', JNum 5)],
         [(''name'', JStr ''Bolt''), (''unit_price'', JNum 2)]],
        [[(''name'', JStr ''Bolt''), (''unit_price'', JNum 2)],
         [(''name'', JStr ''Nut''), (''unit_price'', JNum 5)]]], 1)"
    by (simp add: sorted_memo_def sorted_array_def spread_def alloc_def sort_in_place_def
          array_sort_def compare_products_def lowered_def num_lt_def)
  have l: "(0::nat) < length ?h" by simp
  note w = sorted_is_permutation_of_copy [of 0 ?h num_lt "''unit_price''" "''asc''",
      THEN conjunct1, THEN mp, OF l]
  have c: "case sorted_memo num_lt ?h (ArrayRef 0) ''unit_price'' ''asc'' of
        (h', r) \<Rightarrow> r \<noteq> 0
          \<and> mset (h' ! r) = mset [[(''name'', JStr ''Nut''), (''unit_price'', JNum 5)],
                                  [(''name'', JStr ''Bolt''), (''unit_price'', JNum 2)]]
          \<and> h' ! 0 = [[(''name'', JStr ''Nut''), (''unit_price'', JNum 5)],
                       [(''name'', JStr ''Bolt''), (''unit_price'', JNum 2)]]"
    using w by (simp add: e)
  show ?thesis
    by (intro conjI e c)
qed

section \<open>Polling every 30 seconds\<close>

lemma timers_ok_call: "timers_ok c w cl \<Longrightarrow> timers_ok c (call f w) cl"
  by (simp add: timers_ok_def call_def)

lemma fire_unmounted: "active w = [] \<Longrightarrow> fire w = w"
  by (simp add: fire_def)

lemma fire_one: "active w = [(i, d, f)] \<Longrightarrow> fire w = call f w"
  by (simp add: fire_def)

lemma timers_ok_fire: "timers_ok c w cl \<Longrightarrow> timers_ok c (fire w) cl"
proof (cases cl)
  case None
  assume h: "timers_ok c w cl"
  with None have "active w = []" by (simp add: timers_ok_def)
  then show ?thesis using h by (simp add: fire_unmounted)
next
  case (Some i)
  assume h: "timers_ok c w cl"
  with Some have "active w = [(i, 30000, refresh_of c)]" by (simp add: timers_ok_def)
  then have "fire w = call (refresh_of c) w" by (rule fire_one)
  then show ?thesis using h by (simp add: timers_ok_call)
qed

lemma timers_ok_setInterval:
  assumes "timers_ok c w None" and "setInterval (refresh_of c) 30000 w = (i, w')"
  shows "timers_ok c w' (Some i)"
proof -
  from assms(2) have i: "i = next_timer w"
    and w': "w' = w\<lparr>active := (next_timer w, 30000, refresh_of c) # active w,
        created := (next_timer w, 30000, refresh_of c) # created w,
        next_timer := Suc (next_timer w)\<rparr>"
    by (auto simp: setInterval_def)
  have "next_timer w \<notin> set (cleared w)"
    using assms(1) by (auto simp: timers_ok_def)
  then show ?thesis
    using assms(1) unfolding i w' timers_ok_def
    by (auto intro: less_SucI)
qed

lemma run_effect_eq:
  "run_effect c w = setInterval (refresh_of c) 30000 (call (refresh_of c) w)"
  by (cases c) (simp_all add: run_effect_def refresh_of_def dashboard_effect_def
      stock_alert_effect_def)

lemma timers_ok_effect:
  assumes "timers_ok c w None" and "run_effect c w = (i, w')"
  shows "timers_ok c w' (Some i)"
proof -
  have "setInterval (refresh_of c) 30000 (call (refresh_of c) w) = (i, w')"
    using assms(2) by (simp only: run_effect_eq)
  with timers_ok_call [OF assms(1)] show ?thesis
    by (rule timers_ok_setInterval)
qed

lemma timers_ok_cleanup:
  assumes "timers_ok c w (Some i)"
  shows "timers_ok c (effect_cleanup i w) None"
  using assms
  by (auto simp: timers_ok_def effect_cleanup_def clearInterval_def)

lemma timers_ok_step:
  "timers_ok c (window m) (cleanup m) \<Longrightarrow>
     timers_ok c (window (react_step c ev m)) (cleanup (react_step c ev m))"
proof (cases ev)
  case Mount
  assume h: "timers_ok c (window m) (cleanup m)"
  show ?thesis
  proof (cases "cleanup m")
    case None
    obtain i w where e: "run_effect c (window m) = (i, w)"
      by (cases "run_effect c (window m)")
    from h None have "timers_ok c w (Some i)"
      using timers_ok_effect [OF _ e] by simp
    with Mount None e show ?thesis by simp
  next
    case (Some i)
    with Mount h show ?thesis by simp
  qed
next
  case Rerun
  assume h: "timers_ok c (window m) (cleanup m)"
  show ?thesis
  proof (cases "cleanup m")
    case None
    with Rerun h show ?thesis by simp
  next
    case (Some i)
    obtain j w where e: "run_effect c (effect_cleanup i (window m)) = (j, w)"
      by (cases "run_effect c (effect_cleanup i (window m))")
    from h Some have "timers_ok c (effect_cleanup i (window m)) None"
      using timers_ok_cleanup by simp
    then have "timers_ok c w (Some j)"
      using e by (rule timers_ok_effect)
    with Rerun Some e show ?thesis by simp
  qed
next
  case Tick
  assume h: "timers_ok c (window m) (cleanup m)"
  with Tick show ?thesis by (simp add: timers_ok_fire)
next
  case Unmount
  assume h: "timers_ok c (window m) (cleanup m)"
  show ?thesis
  proof (cases "cleanup m")
    case None
    with Unmount h show ?thesis by simp
  next
    case (Some i)
    with h have "timers_ok c (effect_cleanup i (window m)) None"
      using timers_ok_cleanup by simp
    with Unmount Some show ?thesis by simp
  qed
qed

lemma timers_ok_fold:
  "timers_ok c (window m) (cleanup m) \<Longrightarrow>
     timers_ok c (window (fold (react_step c) evs m)) (cleanup (fold (react_step c) evs m))"
proof (induction evs arbitrary: m)
  case Nil
  then show ?case by simp
next
  case (Cons ev evs)
  have "timers_ok c (window (react_step c ev m)) (cleanup (react_step c ev m))"
    using Cons.prems by (rule timers_ok_step)
  then show ?case using Cons.IH by simp
qed

lemma timers_ok_run:
  "timers_ok c (window (lifecycle_run c evs)) (cleanup (lifecycle_run c evs))"
  unfolding lifecycle_run_def
  by (rule timers_ok_fold) (simp add: timers_ok_def unmounted_def)

lemma fold_call_cleared:
  "cleared (fold (\<lambda>t. call (g t)) ts w) = cleared w"
  by (induction ts arbitrary: w) (simp_all add: call_def)

text \<open>
  C6. Over every course of mounting, re-running, ticking and unmounting, for the page
  and for the stock-alert panel alike. The data is refreshed on the timer: mounting
  fetches once and starts an interval on the component's fetching function, and each
  period that passes while the effect is set up calls that function once more; a
  period that passes after the teardown fetches nothing. Every interval that is ever
  started has the delay 30000 ms and that function; no interval is cleared twice;
  while the effect is set up exactly its own interval runs and has not been cleared;
  once the component is unmounted no interval runs and every interval started has
  been cleared, hence exactly once. An interval is cleared by the cleanup function
  of its effect and by nothing else: a tick and a mount clear nothing, and
  unmounting clears the pending interval.
\<close>

theorem polling_timer_lifecycle:
  "(\<forall>t \<in> set (created (window (lifecycle_run c evs))). snd t = (30000, refresh_of c))
   \<and> distinct (cleared (window (lifecycle_run c evs)))
   \<and> (cleanup (lifecycle_run c evs) = None \<longrightarrow>
         active (window (lifecycle_run c evs)) = []
         \<and> set (cleared (window (lifecycle_run c evs)))
             = set (map fst (created (window (lifecycle_run c evs)))))
   \<and> (\<forall>i. cleanup (lifecycle_run c evs) = Some i \<longrightarrow>
         active (window (lifecycle_run c evs)) = [(i, 30000, refresh_of c)]
         \<and> i \<notin> set (cleared (window (lifecycle_run c evs))))
   \<and> cleared (window (react_step c Tick m)) = cleared (window m)
   \<and> cleared (window (react_step c Mount m)) = cleared (window m)
   \<and> (\<forall>i. cleanup m = Some i \<longrightarrow>
         cleared (window (react_step c Unmount m)) = i # cleared (window m))
   \<and> (cleanup m = None \<longrightarrow>
         fetched (window (react_step c Mount m)) = refresh_of c # fetched (window m))
   \<and> (\<forall>i. cleanup (lifecycle_run c evs) = Some i \<longrightarrow>
         fetched (window (react_step c Tick (lifecycle_run c evs)))
           = refresh_of c # fetched (window (lifecycle_run c evs)))
   \<and> (cleanup (lifecycle_run c evs) = None \<longrightarrow>
         fetched (window (react_step c Tick (lifecycle_run c evs)))
           = fetched (window (lifecycle_run c evs)))"
proof -
  note ok = timers_ok_run [of c evs, unfolded timers_ok_def]
  have f1: "\<forall>t \<in> set (created (window (lifecycle_run c evs))). snd t = (30000, refresh_of c)"
    using ok by blast
  have f2: "distinct (cleared (window (lifecycle_run c evs)))"
    using ok by blast
  have f3: "cleanup (lifecycle_run c evs) = None \<longrightarrow>
         active (window (lifecycle_run c evs)) = []
         \<and> set (cleared (window (lifecycle_run c evs)))
             = set (map fst (created (window (lifecycle_run c evs))))"
    using ok by auto
  have f4: "\<forall>i. cleanup (lifecycle_run c evs) = Some i \<longrightarrow>
         active (window (lifecycle_run c evs)) = [(i, 30000, refresh_of c)]
         \<and> i \<notin> set (cleared (window (lifecycle_run c evs)))"
    using ok by auto
  have f5: "cleared (window (react_step c Tick m)) = cleared (window m)"
    by (simp add: fire_def fold_call_cleared)
  have f6: "cleared (window (react_step c Mount m)) = cleared (window m)"
    by (cases c)
       (auto simp: run_effect_def dashboard_effect_def stock_alert_effect_def setInterval_def
          call_def split: option.splits)
  have f7: "\<forall>i. cleanup m = Some i \<longrightarrow>
         cleared (window (react_step c Unmount m)) = i # cleared (window m)"
    by (simp add: effect_cleanup_def clearInterval_def)
  have f8: "cleanup m = None \<longrightarrow>
         fetched (window (react_step c Mount m)) = refresh_of c # fetched (window m)"
    by (simp add: run_effect_eq setInterval_def call_def)
  have f9: "\<forall>i. cleanup (lifecycle_run c evs) = Some i \<longrightarrow>
         fetched (window (react_step c Tick (lifecycle_run c evs)))
           = refresh_of c # fetched (window (lifecycle_run c evs))"
  proof (intro allI impI)
    fix i
    assume "cleanup (lifecycle_run c evs) = Some i"
    with f4 have "active (window (lifecycle_run c evs)) = [(i, 30000, refresh_of c)]"
      by blast
    then have "fire (window (lifecycle_run c evs))
        = call (refresh_of c) (window (lifecycle_run c evs))"
      by (rule fire_one)
    then show "fetched (window (react_step c Tick (lifecycle_run c evs)))
           = refresh_of c # fetched (window (lifecycle_run c evs))"
      by (simp add: call_def)
  qed
  have f10: "cleanup (lifecycle_run c evs) = None \<longrightarrow>
         fetched (window (react_step c Tick (lifecycle_run c evs)))
           = fetched (window (lifecycle_run c evs))"
  proof
    assume "cleanup (lifecycle_run c evs) = None"
    with f3 have "active (window (lifecycle_run c evs)) = []" by blast
    then have "fire (window (lifecycle_run c evs)) = window (lifecycle_run c evs)"
      by (rule fire_unmounted)
    then show "fetched (window (react_step c Tick (lifecycle_run c evs)))
           = fetched (window (lifecycle_run c evs))"
      by simp
  qed
  show ?thesis
    by (intro conjI f1 f2 f3 f4 f5 f6 f7 f8 f9 f10)
qed

theorem polling_timer_lifecycle_witness:
  "cleanup (lifecycle_run StockAlert [Mount, Tick, Rerun, Unmount]) = None
   \<and> created (window (lifecycle_run StockAlert [Mount, Tick, Rerun, Unmount]))
       = [(1, 30000, FetchLowStock), (0, 30000, FetchLowStock)]
   \<and> cleared (window (lifecycle_run StockAlert [Mount, Tick, Rerun, Unmount])) = [1, 0]
   \<and> active (window (lifecycle_run StockAlert [Mount, Tick, Rerun, Unmount])) = []
   \<and> fetched (window (react_step StockAlert Tick
          (lifecycle_run StockAlert [Mount, Tick, Rerun, Unmount])))
       = [FetchLowStock, FetchLowStock, FetchLowStock]
   \<and> cleanup (lifecycle_run Dashboard [Mount, Tick]) = Some 0
   \<and> active (window (lifecycle_run Dashboard [Mount, Tick])) = [(0, 30000, FetchDashboardData)]
   \<and> 0 \<notin> set (cleared (window (lifecycle_run Dashboard [Mount, Tick])))
   \<and> fetched (window (react_step Dashboard Tick (lifecycle_run Dashboard [Mount, Tick])))
       = [FetchDashboardData, FetchDashboardData, FetchDashboardData]"
proof -
  have e1: "lifecycle_run StockAlert [Mount, Tick, Rerun, Unmount]
     = \<lparr>window = \<lparr>active = [],
           created = [(1, 30000, FetchLowStock), (0, 30000, FetchLowStock)],
           cleared = [1, 0], next_timer = 2,
           fetched = [FetchLowStock, FetchLowStock, FetchLowStock]\<rparr>, cleanup = None\<rparr>"
    by (simp add: lifecycle_run_def unmounted_def run_effect_def stock_alert_effect_def
          setInterval_def clearInterval_def effect_cleanup_def call_def fire_def)
  have e2: "cleanup (lifecycle_run Dashboard [Mount, Tick]) = Some 0"
    by (simp add: lifecycle_run_def unmounted_def run_effect_def dashboard_effect_def
          setInterval_def call_def fire_def)
  have e3: "fetched (window (lifecycle_run Dashboard [Mount, Tick]))
      = [FetchDashboardData, FetchDashboardData]"
    by (simp add: lifecycle_run_def unmounted_def run_effect_def dashboard_effect_def
          setInterval_def call_def fire_def)
  have r: "refresh_of Dashboard = FetchDashboardData"
    by (simp add: refresh_of_def)
  note w1 = polling_timer_lifecycle [of StockAlert "[Mount, Tick, Rerun, Unmount]" unmounted]
  note w2 = polling_timer_lifecycle [of Dashboard "[Mount, Tick]" unmounted]
  have a: "cleanup (lifecycle_run StockAlert [Mount, Tick, Rerun, Unmount]) = None"
    by (simp add: e1)
  have b: "active (window (lifecycle_run StockAlert [Mount, Tick, Rerun, Unmount])) = []"
    using w1 [THEN conjunct2, THEN conjunct2, THEN conjunct1] a by blast
  have b2: "fetched (window (react_step StockAlert Tick
          (lifecycle_run StockAlert [Mount, Tick, Rerun, Unmount])))
       = fetched (window (lifecycle_run StockAlert [Mount, Tick, Rerun, Unmount]))"
    using w1 [THEN conjunct2, THEN conjunct2, THEN conjunct2, THEN conjunct2, THEN conjunct2,
        THEN conjunct2, THEN conjunct2, THEN conjunct2, THEN conjunct2] a
    by (rule mp)
  have c: "active (window (lifecycle_run Dashboard [Mount, Tick]))
        = [(0, 30000, refresh_of Dashboard)]
      \<and> 0 \<notin> set (cleared (window (lifecycle_run Dashboard [Mount, Tick])))"
    using w2 [THEN conjunct2, THEN conjunct2, THEN conjunct2, THEN conjunct1] e2 by blast
  have c2: "fetched (window (react_step Dashboard Tick (lifecycle_run Dashboard [Mount, Tick])))
       = refresh_of Dashboard # fetched (window (lifecycle_run Dashboard [Mount, Tick]))"
    using w2 [THEN conjunct2, THEN conjunct2, THEN conjunct2, THEN conjunct2, THEN conjunct2,
        THEN conjunct2, THEN conjunct2, THEN conjunct2, THEN conjunct1] e2 by blast
  have g1: "created (window (lifecycle_run StockAlert [Mount, Tick, Rerun, Unmount]))
       = [(1, 30000, FetchLowStock), (0, 30000, FetchLowStock)]"
    by (simp add: e1)
  have g2: "cleared (window (lifecycle_run StockAlert [Mount, Tick, Rerun, Unmount])) = [1, 0]"
    by (simp add: e1)
  have g3: "fetched (window (react_step StockAlert Tick
          (lifecycle_run StockAlert [Mount, Tick, Rerun, Unmount])))
       = [FetchLowStock, FetchLowStock, FetchLowStock]"
    unfolding b2 by (simp add: e1)
  have g4: "active (window (lifecycle_run Dashboard [Mount, Tick]))
        = [(0, 30000, FetchDashboardData)]"
    using c by (simp add: r)
  have g5: "0 \<notin> set (cleared (window (lifecycle_run Dashboard [Mount, Tick])))"
    using c by simp
  have g6: "fetched (window (react_step Dashboard Tick (lifecycle_run Dashboard [Mount, Tick])))
       = [FetchDashboardData, FetchDashboardData, FetchDashboardData]"
    unfolding c2 e3 r by simp
  show ?thesis
    by (intro conjI a g1 g2 b g3 e2 g4 g5 g6)
qed

section \<open>Low stock\<close>

lemma is_low_stock_int: "is_low_stock p \<longleftrightarrow> 10 * current_stock p < initial_capacity p"
proof -
  have "((of_int (current_stock p) :: rat) < (1 / 10) * of_int (initial_capacity p))
      \<longleftrightarrow> (of_int (10 * current_stock p) :: rat) < of_int (initial_capacity p)"
    by (simp add: field_simps)
  also have "\<dots> \<longleftrightarrow> 10 * current_stock p < initial_capacity p"
    by (simp only: of_int_less_iff)
  finally show ?thesis by (simp add: is_low_stock_def)
qed

lemma low_stock_empty_iff:
  "low_stock_endpoint db = [] \<longleftrightarrow> (\<forall>p \<in> set db. \<not> is_low_stock p)"
  by (simp add: low_stock_endpoint_def filter_empty_conv)

lemma panel_shows_endpoint:
  "fetchLowStock (low_stock_response db) s
     = Inr (s\<lparr>alerts := map row_json (low_stock_endpoint db), loading := False, error := None\<rparr>)"
  by (simp add: fetchLowStock_def fetchLowStock_try_def low_stock_response_def res_ok_def)

lemma getLowStock_endpoint:
  "getLowStock (low_stock_response db) = Inr (JArray (map row_json (low_stock_endpoint db)))"
  by (simp add: getLowStock_def fetchAPI_def fetchAPI_try_def low_stock_response_def res_ok_def)

text \<open>
  C1. A product is low on stock exactly when its current stock is below a tenth of
  its initial capacity, which over the integers is \<open>10 * current_stock < initial_capacity\<close>.
  For every database the endpoint returns exactly the products that are low on
  stock, each as often as the database has it, and the empty list exactly when no
  product qualifies. The client hands this list on unchanged, and the panel is in
  its safe state exactly when no product qualifies.
\<close>

theorem low_stock_exact:
  "(is_low_stock p \<longleftrightarrow>
      (of_int (current_stock p) :: rat) < (1 / 10) * of_int (initial_capacity p))
   \<and> (is_low_stock p \<longleftrightarrow> 10 * current_stock p < initial_capacity p)
   \<and> set (low_stock_endpoint db) = {p \<in> set db. is_low_stock p}
   \<and> mset (low_stock_endpoint db) = filter_mset is_low_stock (mset db)
   \<and> (low_stock_endpoint db = [] \<longleftrightarrow> (\<forall>p \<in> set db. \<not> is_low_stock p))
   \<and> getLowStock (low_stock_response db)
       = Inr (JArray (map row_json (low_stock_endpoint db)))
   \<and> (stateClass (map row_json (low_stock_endpoint db)) = ''safe''
        \<longleftrightarrow> (\<forall>p \<in> set db. \<not> is_low_stock p))"
proof -
  have f1: "is_low_stock p \<longleftrightarrow>
      (of_int (current_stock p) :: rat) < (1 / 10) * of_int (initial_capacity p)"
    by (simp add: is_low_stock_def)
  have f3: "set (low_stock_endpoint db) = {p \<in> set db. is_low_stock p}"
    by (simp add: low_stock_endpoint_def)
  have f4: "mset (low_stock_endpoint db) = filter_mset is_low_stock (mset db)"
    by (simp add: low_stock_endpoint_def)
  have f7: "stateClass (map row_json (low_stock_endpoint db)) = ''safe''
        \<longleftrightarrow> (\<forall>p \<in> set db. \<not> is_low_stock p)"
    using low_stock_empty_iff [of db] by (simp add: stateClass_def hasAlerts_def)
  show ?thesis
    by (intro conjI f1 is_low_stock_int f3 f4 low_stock_empty_iff getLowStock_endpoint f7)
qed

theorem low_stock_exact_witness:
  "low_stock_endpoint
     [\<lparr>row_id = 1, current_stock = 9, initial_capacity = 100\<rparr>,
      \<lparr>row_id = 2, current_stock = 10, initial_capacity = 100\<rparr>]
    = [\<lparr>row_id = 1, current_stock = 9, initial_capacity = 100\<rparr>]
   \<and> low_stock_endpoint [\<lparr>row_id = 2, current_stock = 10, initial_capacity = 100\<rparr>] = []
   \<and> stateClass (map row_json
        (low_stock_endpoint [\<lparr>row_id = 2, current_stock = 10, initial_capacity = 100\<rparr>]))
      = ''safe''"
proof -
  let ?a = "\<lparr>row_id = 1, current_stock = 9, initial_capacity = 100\<rparr>"
  let ?b = "\<lparr>row_id = 2, current_stock = 10, initial_capacity = 100\<rparr>"
  have la: "is_low_stock ?a"
    using low_stock_exact [of ?a "[]", THEN conjunct2, THEN conjunct1] by simp
  have lb: "\<not> is_low_stock ?b"
    using low_stock_exact [of ?b "[]", THEN conjunct2, THEN conjunct1] by simp
  have n: "\<forall>p \<in> set [?b]. \<not> is_low_stock p"
    using lb by simp
  have e1: "low_stock_endpoint [?a, ?b] = [?a]"
    using la lb by (simp add: low_stock_endpoint_def)
  have e2: "low_stock_endpoint [?b] = []"
    using low_stock_exact [of ?b "[?b]", THEN conjunct2, THEN conjunct2, THEN conjunct2,
        THEN conjunct2, THEN conjunct1] n by blast
  have e3: "stateClass (map row_json (low_stock_endpoint [?b])) = ''safe''"
    using low_stock_exact [of ?b "[?b]", THEN conjunct2, THEN conjunct2, THEN conjunct2,
        THEN conjunct2, THEN conjunct2, THEN conjunct2] n by blast
  show ?thesis
    by (intro conjI e1 e2 e3)
qed

section \<open>The success rate of the dashboard tab\<close>




text \<open>After scaling the quotient lies in one binade: at least \<open>2 ^ 52\<close>, below \<open>2 ^ 53\<close>.\<close>

lemma scale_down_upper: "0 < b \<Longrightarrow> a < 2 ^ 53 * scale_down a b"
proof (induction a b rule: scale_down.induct)
  case (1 a b)
  show ?case
  proof (cases "a < 2 ^ 53 * b")
    case True
    then show ?thesis by (simp add: scale_down.simps)
  next
    case False
    with "1.prems" have e: "scale_down a b = scale_down a (2 * b)"
      by (subst scale_down.simps) simp
    from "1.IH" False "1.prems" have "a < 2 ^ 53 * scale_down a (2 * b)" by simp
    then show ?thesis by (simp only: e)
  qed
qed









lemma halfway_meaning:
  assumes "projects \<noteq> []"
  shows "halfway projects \<longleftrightarrow> (\<exists>k :: int. exact_rate projects = of_int k + 1 / 2)"
proof -
  define n where "n = length projects"
  define s where "s = length (filter successful projects)"
  have n: "0 < n" using assms by (simp add: n_def)
  have x: "exact_rate projects = of_nat (200 * s + n) / of_nat (2 * n) - 1 / 2"
    using n by (simp add: exact_rate_def s_def n_def field_simps)
  show ?thesis
  proof
    assume "halfway projects"
    then obtain k where k: "200 * s + n = 2 * n * k"
      by (auto simp: halfway_def s_def n_def dvd_def)
    have "(of_nat (200 * s + n) :: rat) / of_nat (2 * n) = of_nat k"
      using n by (simp only: k) simp
    then have "exact_rate projects = of_int (int k - 1) + 1 / 2"
      by (simp add: x)
    then show "\<exists>k :: int. exact_rate projects = of_int k + 1 / 2" by blast
  next
    assume "\<exists>k :: int. exact_rate projects = of_int k + 1 / 2"
    then obtain k :: int where k: "exact_rate projects = of_int k + 1 / 2" by blast
    then have "(of_nat (200 * s + n) :: rat) / of_nat (2 * n) = of_int (k + 1)"
      by (simp add: x)
    then have "(of_nat (200 * s + n) :: rat) = of_int (k + 1) * of_nat (2 * n)"
      using n by (simp add: field_simps)
    then have "(of_int (int (200 * s + n)) :: rat) = of_int ((k + 1) * int (2 * n))"
      by simp
    then have "int (200 * s + n) = (k + 1) * int (2 * n)"
      by (simp only: of_int_eq_iff)
    then have "int (2 * n) dvd int (200 * s + n)" by simp
    then have "2 * n dvd 200 * s + n" by (simp only: int_dvd_int_iff)
    then show "halfway projects" by (simp add: halfway_def s_def n_def)
  qed
qed





end
